theory Spec2Isabelle
  imports Complex_Main "HOL-Library.AList" "HOL-Library.Multiset"
    "HOL-Library.List_Lexorder" "HOL-Library.Char_ord"
begin

section \<open>Data frames\<close>

text \<open>
  The processors work on pandas data frames. A frame is modelled column-wise, as pandas
  stores it: an association list from column names to columns, in column order, every
  column a list of cells of the same length. A float cell is either a number or the
  missing value; a boolean column holds flags; every other column (station id, unit,
  weather flags) holds text.
\<close>

datatype cell = NaN | Num real | Flag bool | Txt string

text \<open>The exceptions of Python that the modelled functions raise.\<close>

datatype error = ValueError | KeyError

type_synonym column = "cell list"
type_synonym frame = "(string \<times> column) list"

definition wf_frame :: "nat \<Rightarrow> frame \<Rightarrow> bool" where
  "wf_frame n df \<longleftrightarrow> distinct (map fst df) \<and> (\<forall>c \<in> set df. length (snd c) = n)"

text \<open>\<^verbatim>\<open>col in df.columns\<close> and \<^verbatim>\<open>df[col]\<close>.\<close>

definition has_col :: "frame \<Rightarrow> string \<Rightarrow> bool" where
  "has_col df c \<longleftrightarrow> map_of df c \<noteq> None"

definition get_col :: "frame \<Rightarrow> string \<Rightarrow> column" where
  "get_col df c = (case map_of df c of Some xs \<Rightarrow> xs | None \<Rightarrow> [])"

text \<open>\<^verbatim>\<open>df[col] = xs\<close>: an existing column is replaced in place, a new one is appended.\<close>

definition set_col :: "string \<Rightarrow> column \<Rightarrow> frame \<Rightarrow> frame" where
  "set_col c xs df = AList.update c xs df"

text \<open>\<^verbatim>\<open>series.notna()\<close> on one cell.\<close>

fun notna :: "cell \<Rightarrow> bool" where
  "notna NaN = False"
| "notna _ = True"

section \<open>Outlier detection\<close>

text \<open>
  \<^verbatim>\<open>((s < min_val) | (s > max_val)) & s.notna()\<close> on one cell. The tracked columns are
  float columns (they come out of the unit conversions), so only a number can lie outside
  the range; a comparison with the missing value is false.
\<close>

fun out_of_range :: "real \<Rightarrow> real \<Rightarrow> cell \<Rightarrow> bool" where
  "out_of_range lo hi (Num v) = (v < lo \<or> v > hi)"
| "out_of_range lo hi _ = False"

text \<open>\<^verbatim>\<open>result.loc[is_outlier, col] = np.nan\<close>.\<close>

fun null_where :: "bool list \<Rightarrow> column \<Rightarrow> column" where
  "null_where (b # bs) (x # xs) = (if b then NaN else x) # null_where bs xs"
| "null_where _ xs = xs"

definition flag_name :: "string \<Rightarrow> string" where
  "flag_name c = c @ ''_is_outlier''"

text \<open>
  One iteration of the loop of \<^verbatim>\<open>NOAADataProcessor._detect_outliers\<close>
  (noaa_processor.py, lines 125-141): a column that is absent, or has no valid value, is
  skipped; otherwise the flag column is written and the flagged cells are nulled.
\<close>

definition detect_col :: "string \<Rightarrow> real \<Rightarrow> real \<Rightarrow> frame \<Rightarrow> frame" where
  "detect_col c lo hi df =
     (if \<not> has_col df c then df
      else if length (filter notna (get_col df c)) = 0 then df
      else
        let is_outlier = map (out_of_range lo hi) (get_col df c);
            df1 = set_col (flag_name c) (map Flag is_outlier) df
        in if length (filter id is_outlier) > 0
           then set_col c (null_where is_outlier (get_col df1 c)) df1
           else df1)"

definition NOAA_OUTLIER_THRESHOLDS :: "(string \<times> real \<times> real) list" where
  "NOAA_OUTLIER_THRESHOLDS =
     [(''temp_avg_c'', -60, 60),
      (''temp_max_c'', -60, 60),
      (''temp_min_c'', -60, 60),
      (''precip_mm'', 0, 2000),
      (''wind_speed_kmh'', 0, 300),
      (''visibility_km'', 0, 100),
      (''station_pressure_hpa'', 870, 1085)]"

text \<open>The loop over a table of thresholds, in the table's order.\<close>

fun detect_all :: "(string \<times> real \<times> real) list \<Rightarrow> frame \<Rightarrow> frame" where
  "detect_all [] df = df"
| "detect_all ((c, lo, hi) # ths) df = detect_all ths (detect_col c lo hi df)"

definition noaa_detect_outliers :: "frame \<Rightarrow> frame" where
  "noaa_detect_outliers df = detect_all NOAA_OUTLIER_THRESHOLDS df"

text \<open>
  \<^verbatim>\<open>OpenAQDataProcessor.detect_outliers\<close> (openaq_processor.py, lines 172-205), for one
  pollutant; a pollutant without an entry in the table gets the range 0 to 10000. Here the
  cells are nulled first and the flag column is written last.
\<close>

definition OPENAQ_OUTLIER_THRESHOLDS :: "(string \<times> real \<times> real) list" where
  "OPENAQ_OUTLIER_THRESHOLDS =
     [(''pm25'', 0, 1000),
      (''pm10'', 0, 2000),
      (''o3'', 0, 0.5),
      (''no2'', 0, 2.0),
      (''so2'', 0, 1.0),
      (''co'', 0, 50)]"

definition openaq_range :: "string \<Rightarrow> real \<times> real" where
  "openaq_range pollutant =
     (case map_of OPENAQ_OUTLIER_THRESHOLDS pollutant of Some r \<Rightarrow> r | None \<Rightarrow> (0, 10000))"

definition openaq_detect_outliers :: "frame \<Rightarrow> string \<Rightarrow> frame" where
  "openaq_detect_outliers df pollutant =
     (if \<not> has_col df pollutant then df
      else
        let (min_val, max_val) = openaq_range pollutant in
        if length (filter notna (get_col df pollutant)) = 0 then df
        else
          let is_outlier = map (out_of_range min_val max_val) (get_col df pollutant);
              df1 = (if length (filter id is_outlier) > 0
                     then set_col pollutant (null_where is_outlier (get_col df pollutant)) df
                     else df)
          in set_col (flag_name pollutant) (map Flag is_outlier) df1)"

text \<open>The cell of a column at a row, when the frame has both.\<close>

definition cell_at :: "frame \<Rightarrow> string \<Rightarrow> nat \<Rightarrow> cell option" where
  "cell_at df c i =
     (case map_of df c of None \<Rightarrow> None
      | Some xs \<Rightarrow> if i < length xs then Some (xs ! i) else None)"

text \<open>
  The cells of a float column: numbers and the missing value. The detectors compare the
  cells of a tracked column with numbers, which pandas refuses for a text column; the
  properties of the values below are stated for float columns.
\<close>

fun is_float :: "cell \<Rightarrow> bool" where
  "is_float NaN = True"
| "is_float (Num v) = True"
| "is_float _ = False"

section \<open>Station matching\<close>

text \<open>
  A row of the station catalogue after \<^verbatim>\<open>_clean_station_data\<close> (matcher.py): the
  coordinates are numbers. \<open>USAF\<close> and \<open>WBAN\<close> hold the text that \<^verbatim>\<open>str\<close> gives.
\<close>

record station_row =
  USAF :: string
  WBAN :: string
  STATION_NAME :: string
  LAT :: real
  LON :: real

text \<open>The dictionary returned for a station.\<close>

record station =
  usaf :: string
  wban :: string
  station_id :: string
  name :: string
  lat :: real
  lon :: real
  distance_km :: real

text \<open>
  \<^verbatim>\<open>haversine_distance\<close> (matcher.py, lines 57-78), with \<^verbatim>\<open>math.atan2\<close> written
  out by quadrant. The code computes in double precision. Over the reals \<open>a\<close> lies
  between 0 and 1, but its rounded value can exceed 1 for two points that are nearly
  antipodal, and then \<^verbatim>\<open>math.sqrt(1 - a)\<close> raises \<^verbatim>\<open>ValueError\<close> (math domain error).
  The rounding of \<open>a\<close> is the parameter \<open>fl\<close>: it takes the exact value of the expression to
  the value the floats give. Everything else is computed over the reals.
\<close>

definition radians :: "real \<Rightarrow> real" where
  "radians x = x * pi / 180"

definition atan2 :: "real \<Rightarrow> real \<Rightarrow> real" where
  "atan2 y x =
     (if 0 < x then arctan (y / x)
      else if x < 0 then (if 0 \<le> y then arctan (y / x) + pi else arctan (y / x) - pi)
      else if 0 < y then pi / 2
      else if y < 0 then - (pi / 2)
      else 0)"

definition haversine_distance ::
  "(real \<Rightarrow> real) \<Rightarrow> real \<Rightarrow> real \<Rightarrow> real \<Rightarrow> real \<Rightarrow> error + real" where
  "haversine_distance fl lat1 lon1 lat2 lon2 =
     (let R = 6371;
          la1 = radians lat1; lo1 = radians lon1; la2 = radians lat2; lo2 = radians lon2;
          dlat = la2 - la1;
          dlon = lo2 - lo1;
          a = fl ((sin (dlat / 2))\<^sup>2 + cos la1 * cos la2 * (sin (dlon / 2))\<^sup>2)
      in if a < 0 \<or> 1 - a < 0 then Inl ValueError
         else
           let c = 2 * atan2 (sqrt a) (sqrt (1 - a))
           in Inr (R * c))"

text \<open>\<^verbatim>\<open>str.zfill\<close>: zeros go after a leading sign.\<close>

definition zfill :: "nat \<Rightarrow> string \<Rightarrow> string" where
  "zfill w s =
     (case s of
        [] \<Rightarrow> replicate w (CHR ''0'')
      | c # r \<Rightarrow>
          if c = CHR ''+'' \<or> c = CHR ''-''
          then c # replicate (w - length s) (CHR ''0'') @ r
          else replicate (w - length s) (CHR ''0'') @ s)"

text \<open>
  \<^verbatim>\<open>max_distance_km or float("inf")\<close>: \<open>None\<close> stands for infinity. Python's \<^verbatim>\<open>or\<close>
  takes the right operand when the left one is falsy, which a limit of zero is.
\<close>

definition distance_limit :: "real option \<Rightarrow> real option" where
  "distance_limit max_distance_km =
     (case max_distance_km of
        None \<Rightarrow> None
      | Some m \<Rightarrow> if m = 0 then None else Some m)"

fun below :: "real \<Rightarrow> real option \<Rightarrow> bool" where
  "below d None = True"
| "below d (Some m) = (d < m)"

text \<open>\<^verbatim>\<open>DataFrame.head(n)\<close>: a negative \<open>n\<close> drops the last \<open>-n\<close> rows.\<close>

definition head_rows :: "int \<Rightarrow> 'a list \<Rightarrow> 'a list" where
  "head_rows n xs = (if 0 \<le> n then take (nat n) xs else take (length xs - nat (- n)) xs)"

text \<open>
  \<^verbatim>\<open>valid.sort_values("distance_km")\<close> runs pandas' default sorting algorithm
  (\<^verbatim>\<open>kind="quicksort"\<close>), which returns the rows in ascending order of the key and
  promises no order among rows with equal keys. The sort is a parameter of the model, and
  \<open>sort_contract\<close> is what pandas promises of it.
\<close>

definition sort_contract :: "((station_row \<times> real) list \<Rightarrow> (station_row \<times> real) list) \<Rightarrow> bool" where
  "sort_contract srt \<longleftrightarrow> (\<forall>xs. sorted (map snd (srt xs)) \<and> mset (srt xs) = mset xs)"

definition station_of :: "station_row \<times> real \<Rightarrow> station" where
  "station_of rd =
     (case rd of (row, d) \<Rightarrow>
        \<lparr> usaf = zfill 6 (USAF row),
          wban = zfill 5 (WBAN row),
          station_id = zfill 6 (USAF row) @ ''-'' @ zfill 5 (WBAN row),
          name = STATION_NAME row,
          lat = LAT row,
          lon = LON row,
          distance_km = d \<rparr>)"

text \<open>
  The loop of lines 135-138 computes the distance of every row of the catalogue, before
  any filtering; an exception in one row ends the call.
\<close>

fun all_distances :: "(real \<Rightarrow> real) \<Rightarrow> real \<Rightarrow> real \<Rightarrow> station_row list \<Rightarrow> error + real list" where
  "all_distances fl lat0 lon0 [] = Inr []"
| "all_distances fl lat0 lon0 (row # rows) =
     (case haversine_distance fl lat0 lon0 (LAT row) (LON row) of
        Inl e \<Rightarrow> Inl e
      | Inr d \<Rightarrow>
          (case all_distances fl lat0 lon0 rows of
             Inl e \<Rightarrow> Inl e
           | Inr distances \<Rightarrow> Inr (d # distances)))"

text \<open>
  \<^verbatim>\<open>find_nearest_stations\<close> (matcher.py, lines 119-160). The column
  \<^verbatim>\<open>distance_km\<close> it stores in the catalogue is the second component of the pairs.
\<close>

definition find_nearest_stations ::
  "((station_row \<times> real) list \<Rightarrow> (station_row \<times> real) list) \<Rightarrow> (real \<Rightarrow> real) \<Rightarrow>
   station_row list \<Rightarrow> real \<Rightarrow> real \<Rightarrow> int \<Rightarrow> real option \<Rightarrow> error + station list" where
  "find_nearest_stations srt fl df lat0 lon0 n max_distance_km =
     (case all_distances fl lat0 lon0 df of
        Inl e \<Rightarrow> Inl e
      | Inr distances \<Rightarrow>
          let rows = zip df distances;
              valid = filter (\<lambda>rd. below (snd rd) (distance_limit max_distance_km)) rows;
              valid = head_rows n (srt valid)
          in Inr (map station_of valid))"

section \<open>Gap-bounded interpolation\<close>

text \<open>
  \<^verbatim>\<open>interpolate_missing_values\<close> (noaa_processor.py, lines 291-343) indexes the frame
  by date, sorts it by the index and hands every column with a missing value to
  \<^verbatim>\<open>Series.interpolate(method="time", limit=limit)\<close>. A column is modelled with its
  index, in index order: a list of pairs of a day number and a value, \<open>None\<close> the missing
  value.
\<close>

type_synonym series = "(int \<times> real option) list"

text \<open>
  What pandas does with one column (\<^verbatim>\<open>_interpolate_1d\<close> with the defaults of
  \<^verbatim>\<open>interpolate\<close>: direction forward, no limit area), in its own steps. The points to
  interpolate between are the valid entries.
\<close>

definition valid_points :: "series \<Rightarrow> (real \<times> real) list" where
  "valid_points s =
     List.map_filter (\<lambda>p. case snd p of None \<Rightarrow> None | Some v \<Rightarrow> Some (real_of_int (fst p), v)) s"

text \<open>
  \<^verbatim>\<open>np.interp(x, xp, fp)\<close> for increasing \<open>xp\<close>: the first value to the left of the
  points, the last value to their right, and on the segment from \<open>(x0, y0)\<close> to
  \<open>(x1, y1)\<close> the value \<open>slope * (x - x0) + y0\<close>.
\<close>

fun np_interp :: "real \<Rightarrow> (real \<times> real) list \<Rightarrow> real" where
  "np_interp x [] = 0"
| "np_interp x [(x0, y0)] = y0"
| "np_interp x ((x0, y0) # (x1, y1) # ps) =
     (if x \<le> x0 then y0
      else if x < x1 then (y1 - y0) / (x1 - x0) * (x - x0) + y0
      else np_interp x ((x1, y1) # ps))"

text \<open>The number of missing values before the first valid one (\<^verbatim>\<open>start_nans\<close>).\<close>

definition first_valid_index :: "series \<Rightarrow> nat" where
  "first_valid_index s = length (takeWhile (\<lambda>p. snd p = None) s)"

text \<open>
  \<^verbatim>\<open>_interp_limit(invalid, limit, 0)\<close>: the positions \<open>i\<close> whose window of \<open>limit + 1\<close>
  entries ending at \<open>i\<close> is all missing. They are beyond the limit and stay missing.
\<close>

definition beyond_limit :: "nat \<Rightarrow> bool list \<Rightarrow> nat \<Rightarrow> bool" where
  "beyond_limit limit invalid i \<longleftrightarrow>
     limit \<le> i \<and> i < length invalid \<and> list_all id (take (limit + 1) (drop (i - limit) invalid))"

definition interpolate_1d :: "nat \<Rightarrow> series \<Rightarrow> real option list" where
  "interpolate_1d limit s =
     (let yvalues = map snd s;
          invalid = map (\<lambda>y. y = None) yvalues
      in if list_all id invalid then yvalues
         else if list_all (\<lambda>b. \<not> b) invalid then yvalues
         else map (\<lambda>i. case yvalues ! i of
                          Some v \<Rightarrow> Some v
                        | None \<Rightarrow>
                            if i < first_valid_index s \<or> beyond_limit limit invalid i then None
                            else Some (np_interp (real_of_int (fst (s ! i))) (valid_points s)))
                [0..<length s])"

text \<open>
  The body of the loop of \<^verbatim>\<open>interpolate_missing_values\<close> for one column: the new
  values, and the column \<^verbatim>\<open>{col}_interpolated\<close> when one is written. pandas rejects a
  limit below 1 with a \<^verbatim>\<open>ValueError\<close>.
\<close>

definition interpolate_field :: "int \<Rightarrow> series \<Rightarrow> error + (real option list \<times> bool list option)" where
  "interpolate_field limit s =
     (let col = map snd s;
          missing_before = length (filter (\<lambda>y. y = None) col)
      in if missing_before = 0 then Inr (col, None)
         else
           let interpolated_mask = map (\<lambda>y. y = None) col in
           if limit < 1 then Inl ValueError
           else
             let new = interpolate_1d (nat limit) s;
                 interpolated_count = missing_before - length (filter (\<lambda>y. y = None) new)
             in if interpolated_count > 0
                then Inr (new, Some (map2 (\<lambda>m y. m \<and> y \<noteq> None) interpolated_mask new))
                else Inr (new, None))"

section \<open>The point-HTTP client\<close>

text \<open>Python's \<^verbatim>\<open>str\<close> of an integer, for the f-strings that build paths and URLs.\<close>

fun str_nat :: "nat \<Rightarrow> string" where
  "str_nat n = (if n < 10 then [''0123456789'' ! n] else str_nat (n div 10) @ [''0123456789'' ! (n mod 10)])"

definition str_int :: "int \<Rightarrow> string" where
  "str_int i = (if i < 0 then CHR ''-'' # str_nat (nat (- i)) else str_nat (nat i))"

text \<open>\<^verbatim>\<open>os.path.join\<close> of a directory and a file name that does not start with a slash.\<close>

definition path_join :: "string \<Rightarrow> string \<Rightarrow> string" where
  "path_join a b = (if a = [] \<or> last a = CHR ''/'' then a @ b else a @ ''/'' @ b)"

text \<open>
  The world the client acts on: the files on disk with their contents, and the log of
  the URLs requested so far. What the network answers and what the file system refuses
  are given by the environment: a request comes back with a status code and a body, or
  fails in transport (connection error, timeout); \<open>disk_accepts\<close> says whether the
  directory can be made and the file written; \<open>stat_raises\<close> says for which paths the
  system call behind \<^verbatim>\<open>Path.exists\<close> fails with an error other than "no such file"
  (a name longer than the file system allows, a directory that may not be searched).
\<close>

record world =
  files :: "string \<rightharpoonup> string"
  requested :: "string list"

datatype reply = Response nat string | TransportFailure

record env =
  net :: "string \<Rightarrow> reply"
  disk_accepts :: "string \<Rightarrow> bool"
  stat_raises :: "string \<Rightarrow> bool"

datatype exn = HTTPError | RequestException | OSError

text \<open>
  The body of the \<^verbatim>\<open>try\<close> block of \<^verbatim>\<open>download_year\<close> (client.py, lines 60-71):
  \<^verbatim>\<open>requests.get\<close>, \<^verbatim>\<open>raise_for_status\<close> (which raises for the status codes from 400
  to 599), then the directory and the file are written. An exception leaves the block at
  the statement that raises it.
\<close>

definition try_download :: "env \<Rightarrow> world \<Rightarrow> string \<Rightarrow> string \<Rightarrow> (exn + string) \<times> world" where
  "try_download e w url output_path =
     (let w1 = w\<lparr>requested := requested w @ [url]\<rparr> in
      case net e url of
        TransportFailure \<Rightarrow> (Inl RequestException, w1)
      | Response status content \<Rightarrow>
          if 400 \<le> status \<and> status < 600 then (Inl HTTPError, w1)
          else if \<not> disk_accepts e output_path then (Inl OSError, w1)
          else (Inr output_path, w1\<lparr>files := (files w1)(output_path \<mapsto> content)\<rparr>))"

text \<open>
  \<^verbatim>\<open>NOAAClient.download_year\<close> (client.py, lines 23-79). The result is \<open>Inl\<close> for an
  exception that reaches the caller and \<open>Inr\<close> for a returned value, \<open>None\<close> or the path.
\<close>

definition cache_path :: "string \<Rightarrow> int \<Rightarrow> string \<Rightarrow> string option \<Rightarrow> string" where
  "cache_path NOAA_CACHE_DIR year stn_id output_dir =
     (let output_dir = (case output_dir of None \<Rightarrow> NOAA_CACHE_DIR | Some d \<Rightarrow> d);
          clean_station_id = filter (\<lambda>c. c \<noteq> CHR ''-'') stn_id
      in path_join output_dir (str_int year @ ''_'' @ clean_station_id @ ''.csv''))"

definition year_url :: "string \<Rightarrow> int \<Rightarrow> string \<Rightarrow> string" where
  "year_url base_url year stn_id =
     (let clean_station_id = filter (\<lambda>c. c \<noteq> CHR ''-'') stn_id
      in base_url @ ''/'' @ str_int year @ ''/'' @ clean_station_id @ ''.csv'')"

text \<open>
  \<^verbatim>\<open>Path(output_path).exists()\<close>: \<^verbatim>\<open>pathlib\<close> answers \<open>False\<close> when the file is not
  there and passes every other \<^verbatim>\<open>OSError\<close> of the system call on to the caller.
\<close>

definition path_exists :: "env \<Rightarrow> world \<Rightarrow> string \<Rightarrow> exn + bool" where
  "path_exists e w p = (if stat_raises e p then Inl OSError else Inr (files w p \<noteq> None))"

text \<open>
  \<^verbatim>\<open>NOAAClient.download_year\<close> (client.py, lines 23-79). The result is \<open>Inl\<close> for an
  exception that reaches the caller and \<open>Inr\<close> for a returned value, \<open>None\<close> or the path.
  The cache check of line 54 comes before the \<^verbatim>\<open>try\<close> of line 61, so what it raises
  reaches the caller; \<^verbatim>\<open>use_cache and ...\<close> runs it only when \<open>use_cache\<close> is set.
\<close>

definition fetch_year :: "env \<Rightarrow> string \<Rightarrow> world \<Rightarrow> int \<Rightarrow> string \<Rightarrow> string \<Rightarrow>
   (exn + string option) \<times> world" where
  "fetch_year e base_url w year stn_id output_path =
     (let url = year_url base_url year stn_id in
      case try_download e w url output_path of
        (Inr p, w') \<Rightarrow> (Inr (Some p), w')
      | (Inl HTTPError, w') \<Rightarrow> (Inr None, w')
      | (Inl _, w') \<Rightarrow> (Inr None, w'))"

definition download_year ::
  "env \<Rightarrow> string \<Rightarrow> string \<Rightarrow> world \<Rightarrow> int \<Rightarrow> string \<Rightarrow> string option \<Rightarrow> bool \<Rightarrow>
   (exn + string option) \<times> world" where
  "download_year e base_url NOAA_CACHE_DIR w year stn_id output_dir use_cache =
     (let output_path = cache_path NOAA_CACHE_DIR year stn_id output_dir
      in if use_cache
         then (case path_exists e w output_path of
                 Inl x \<Rightarrow> (Inl x, w)
               | Inr True \<Rightarrow> (Inr (Some output_path), w)
               | Inr False \<Rightarrow> fetch_year e base_url w year stn_id output_path)
         else fetch_year e base_url w year stn_id output_path)"

section \<open>Source normalization of the air-quality archive\<close>

text \<open>
  The number of rows of a frame, and \<^verbatim>\<open>df.empty\<close>: no column or no row.
\<close>

definition nrows :: "frame \<Rightarrow> nat" where
  "nrows df = (case df of [] \<Rightarrow> 0 | cx # _ \<Rightarrow> length (snd cx))"

definition frame_empty :: "frame \<Rightarrow> bool" where
  "frame_empty df \<longleftrightarrow> df = [] \<or> nrows df = 0"

text \<open>\<^verbatim>\<open>df.dropna(subset=[c])\<close>: a new frame with the rows whose cell in \<open>c\<close> is valid.\<close>

definition keep_rows :: "bool list \<Rightarrow> frame \<Rightarrow> frame" where
  "keep_rows keep df = map (\<lambda>cx. (fst cx, map snd (filter fst (zip keep (snd cx))))) df"

definition dropna :: "string \<Rightarrow> frame \<Rightarrow> frame" where
  "dropna c df = keep_rows (map notna (get_col df c)) df"

text \<open>
  The parsers of pandas are parameters of the model: \<open>parse_utc\<close> reads a text as a time
  stamp (seconds since the epoch, UTC) and \<open>parse_number\<close> reads a text as a number; both
  fail with \<open>None\<close>, which \<^verbatim>\<open>errors="coerce"\<close> turns into the missing value. A time stamp
  is held as a number cell.
\<close>

record parsers =
  parse_utc :: "string \<Rightarrow> int option"
  parse_number :: "string \<Rightarrow> real option"

definition to_datetime :: "parsers \<Rightarrow> cell \<Rightarrow> cell" where
  "to_datetime P x =
     (case x of
        Txt s \<Rightarrow> (case parse_utc P s of Some t \<Rightarrow> Num (real_of_int t) | None \<Rightarrow> NaN)
      | Num v \<Rightarrow> Num v
      | _ \<Rightarrow> NaN)"

text \<open>\<^verbatim>\<open>.dt.tz_localize(None).dt.normalize()\<close>: the midnight of the day.\<close>

definition normalize_day :: "cell \<Rightarrow> cell" where
  "normalize_day x =
     (case x of Num t \<Rightarrow> Num (real_of_int (\<lfloor>t / 86400\<rfloor> * 86400)) | _ \<Rightarrow> x)"

definition to_numeric :: "parsers \<Rightarrow> cell \<Rightarrow> cell" where
  "to_numeric P x =
     (case x of
        Txt s \<Rightarrow> (case parse_number P s of Some v \<Rightarrow> Num v | None \<Rightarrow> NaN)
      | Flag b \<Rightarrow> Num (if b then 1 else 0)
      | _ \<Rightarrow> x)"

text \<open>
  \<^verbatim>\<open>_convert_unit\<close> (openaq_processor.py, lines 37-56). The unit names are written in
  ASCII: \<open>ug/m3\<close> for micrograms per cubic metre, and so on.
\<close>

definition convert_unit :: "real \<Rightarrow> cell \<Rightarrow> string \<Rightarrow> real" where
  "convert_unit v from_unit to_unit =
     (if from_unit = Txt to_unit then v
      else if to_unit = ''ug/m3'' \<and> from_unit = Txt ''mg/m3'' then v * 1000
      else if to_unit = ''ug/m3'' \<and> from_unit = Txt ''g/m3'' then v * 1000000
      else if to_unit = ''ppm'' \<and> from_unit = Txt ''ppb'' then v / 1000
      else if to_unit = ''ppm'' \<and> from_unit = Txt ''ppt'' then v / 1000000
      else v)"

definition TARGET_UNITS :: "(string \<times> string) list" where
  "TARGET_UNITS =
     [(''pm25'', ''ug/m3''), (''pm10'', ''ug/m3''), (''o3'', ''ppm''),
      (''no2'', ''ppm''), (''so2'', ''ppm''), (''co'', ''ppm'')]"

text \<open>The number in a cell of a column without missing values.\<close>

definition num_of :: "cell \<Rightarrow> real" where
  "num_of x = (case x of Num v \<Rightarrow> v | _ \<Rightarrow> 0)"

text \<open>
  \<^verbatim>\<open>df.groupby("date").agg({col: "mean"}).reset_index()\<close>: one row for each date, in
  ascending order of the dates, with the mean of the values of that date.
\<close>

definition daily_mean :: "real list \<Rightarrow> real list \<Rightarrow> (real \<times> real) list" where
  "daily_mean dates vals =
     map (\<lambda>d. (d, (let g = map snd (filter (\<lambda>dv. fst dv = d) (zip dates vals))
                    in sum_list g / real (length g))))
         (sort (remdups dates))"

text \<open>
  The last part of \<^verbatim>\<open>process_s3_data\<close> (lines 93-111), on the frame whose dates and
  values are valid.
\<close>

definition aggregate_daily :: "frame \<Rightarrow> string \<Rightarrow> frame" where
  "aggregate_daily df pollutant =
     (let target_unit = (case map_of TARGET_UNITS pollutant of Some u \<Rightarrow> u | None \<Rightarrow> ''ug/m3'');
          has_units_col = has_col df ''units'';
          dates = map num_of (get_col df ''date'');
          vals = map num_of (get_col df ''value'');
          daily =
            (if has_units_col
             then daily_mean dates
                    (map (\<lambda>vu. convert_unit (fst vu) (snd vu) target_unit)
                       (zip vals (get_col df ''units'')))
             else daily_mean dates vals);
          unit =
            (if has_units_col then target_unit
             else (case map_of TARGET_UNITS pollutant of Some u \<Rightarrow> u | None \<Rightarrow> ''unknown''))
      in [(''date'', map (\<lambda>r. Num (fst r)) daily),
          (pollutant, map (\<lambda>r. Num (snd r)) daily),
          (pollutant @ ''_unit'', map (\<lambda>r. Txt unit) daily)])"

text \<open>
  \<^verbatim>\<open>process_s3_data\<close> (openaq_processor.py, lines 58-115). The function gets a reference
  to the caller's frame and assigns columns to it; the model returns the result together
  with the caller's frame as the call leaves it. The local name \<^verbatim>\<open>df\<close> refers to the
  caller's frame until a \<^verbatim>\<open>dropna\<close> binds it to a new frame: the first one runs only when
  a date is invalid. A missing \<^verbatim>\<open>value\<close> column raises \<^verbatim>\<open>KeyError\<close>, which the
  \<^verbatim>\<open>except\<close> clause turns into the empty frame.
\<close>

definition process_s3_data :: "parsers \<Rightarrow> frame \<Rightarrow> string \<Rightarrow> frame \<times> frame" where
  "process_s3_data P df pollutant =
     (if \<not> has_col df ''datetime'' then ([], df)
      else
        let caller1 = set_col ''date'' (map (to_datetime P) (get_col df ''datetime'')) df;
            invalid_dates = length (filter (\<lambda>x. \<not> notna x) (get_col caller1 ''date''));
            aliased = \<not> invalid_dates > 0;
            df1 = (if invalid_dates > 0 then dropna ''date'' caller1 else caller1)
        in if frame_empty df1 then ([], caller1)
           else
             let df2 = set_col ''date'' (map normalize_day (get_col df1 ''date'')) df1;
                 caller2 = (if aliased then df2 else caller1)
             in if \<not> has_col df2 ''value'' then ([], caller2)
                else
                  let df3 = set_col ''value'' (map (to_numeric P) (get_col df2 ''value'')) df2;
                      caller3 = (if aliased then df3 else caller1);
                      df4 = dropna ''value'' df3
                  in if frame_empty df4 then ([], caller3)
                     else (aggregate_daily df4 pollutant, caller3))"

section \<open>The bulk-archive client\<close>

text \<open>
  The environment of the archive client: \<open>list_objects\<close> gives the keys under a prefix
  (\<open>None\<close> when the listing call raises), \<open>get_object\<close> the content of an object (\<open>None\<close>
  when the call or the read raises), \<open>write_ok\<close> says whether the directory can be made
  and the file written, and \<open>stat_fails\<close> for which paths the system call behind
  \<^verbatim>\<open>Path.exists\<close> fails with an error other than "no such file". The world is the one
  of the point-HTTP client; its log holds the keys requested.
\<close>

record s3_env =
  list_objects :: "string \<Rightarrow> string list option"
  get_object :: "string \<Rightarrow> string option"
  write_ok :: "string \<Rightarrow> bool"
  stat_fails :: "string \<Rightarrow> bool"

definition endswith :: "string \<Rightarrow> string \<Rightarrow> bool" where
  "endswith s suf \<longleftrightarrow> length suf \<le> length s \<and> drop (length s - length suf) s = suf"

text \<open>
  \<^verbatim>\<open>_list_s3_files\<close> (s3_downloader.py, lines 56-86). \<^verbatim>\<open>if month\<close> is false for
  \<open>None\<close> and for 0; \<^verbatim>\<open>{month:02d}\<close> pads with zeros to two characters. Any exception
  gives the empty list.
\<close>

definition list_s3_files :: "s3_env \<Rightarrow> int \<Rightarrow> int \<Rightarrow> int option \<Rightarrow> string list" where
  "list_s3_files e location_id year month =
     (let prefix = ''records/csv.gz/locationid='' @ str_int location_id @
                   ''/year='' @ str_int year @ ''/'';
          prefix = (case month of
                      None \<Rightarrow> prefix
                    | Some m \<Rightarrow> if m = 0 then prefix
                               else prefix @ ''month='' @ zfill 2 (str_int m) @ ''/'')
      in case list_objects e prefix of
           None \<Rightarrow> []
         | Some keys \<Rightarrow> sort (filter (\<lambda>key. endswith key ''.csv.gz'') keys))"

text \<open>\<^verbatim>\<open>s3_key.split("/")[-1]\<close>: what follows the last slash.\<close>

definition basename :: "string \<Rightarrow> string" where
  "basename key = rev (takeWhile (\<lambda>c. c \<noteq> CHR ''/'') (rev key))"

text \<open>
  The state the workers share: the world and the two counters (kept under the lock).
\<close>

type_synonym pool_state = "world \<times> nat \<times> nat"

text \<open>
  \<^verbatim>\<open>download_single_file\<close> (lines 119-144), run as one step. Its result is \<open>Inl\<close> for
  an exception that leaves the worker, and \<open>Inr\<close> for what it returns. The cache check
  of line 123 is outside the \<^verbatim>\<open>try\<close> of line 128.
\<close>

definition download_single_file ::
  "s3_env \<Rightarrow> bool \<Rightarrow> string \<Rightarrow> pool_state \<Rightarrow> string \<Rightarrow> (exn + string option) \<times> pool_state" where
  "download_single_file e use_cache year_cache_dir s s3_key =
     (case s of (w, success_count, failed_count) \<Rightarrow>
        let filename = basename s3_key;
            local_path = path_join year_cache_dir filename;
            w1 = w\<lparr>requested := requested w @ [s3_key]\<rparr>;
            fetched =
              (case get_object e s3_key of
                 None \<Rightarrow> (Inr None, (w1, success_count, failed_count + 1))
               | Some content \<Rightarrow>
                   if \<not> write_ok e local_path
                   then (Inr None, (w1, success_count, failed_count + 1))
                   else (Inr (Some local_path),
                         (w1\<lparr>files := (files w1)(local_path \<mapsto> content)\<rparr>,
                          success_count + 1, failed_count)))
        in if use_cache
           then (if stat_fails e local_path then (Inl OSError, s)
                 else if files w local_path \<noteq> None
                 then (Inr (Some local_path), (w, success_count + 1, failed_count))
                 else fetched)
           else fetched)"

text \<open>The workers' steps, in the order in which they complete.\<close>

fun run_tasks ::
  "s3_env \<Rightarrow> bool \<Rightarrow> string \<Rightarrow> string list \<Rightarrow> pool_state \<Rightarrow>
   (exn + string option) list \<times> pool_state" where
  "run_tasks e use_cache d [] s = ([], s)"
| "run_tasks e use_cache d (key # keys) s =
     (case download_single_file e use_cache d s key of
        (r, s1) \<Rightarrow>
          (case run_tasks e use_cache d keys s1 of
             (rs, s2) \<Rightarrow> (r # rs, s2)))"

text \<open>
  The loop over \<^verbatim>\<open>as_completed\<close> (lines 150-153): \<^verbatim>\<open>future.result()\<close> raises what the
  worker raised, which ends the loop and the call; a path is appended, \<open>None\<close> is not.
\<close>

fun collect :: "(exn + string option) list \<Rightarrow> exn + string list" where
  "collect [] = Inr []"
| "collect (Inl x # rs) = Inl x"
| "collect (Inr None # rs) = collect rs"
| "collect (Inr (Some p) # rs) = (case collect rs of Inl x \<Rightarrow> Inl x | Inr ps \<Rightarrow> Inr (p # ps))"

text \<open>
  \<^verbatim>\<open>download_year_data\<close> (lines 88-156). The pool runs the downloads concurrently; the
  model runs each as one step and takes the order in which they complete as the parameter
  \<open>completion\<close>, a rearrangement of the submitted keys. The result comes with the world
  and the counters \<^verbatim>\<open>success_count\<close> and \<^verbatim>\<open>failed_count\<close> as the call leaves them.
\<close>

definition download_year_data ::
  "s3_env \<Rightarrow> (string list \<Rightarrow> string list) \<Rightarrow> world \<Rightarrow> int \<Rightarrow> int \<Rightarrow> string \<Rightarrow> bool \<Rightarrow>
   (exn + string list) \<times> pool_state" where
  "download_year_data e completion w location_id year city_cache_dir use_cache =
     (let s3_files = list_s3_files e location_id year None
      in if s3_files = [] then (Inr [], (w, 0, 0))
         else
           let year_cache_dir =
                 path_join (path_join city_cache_dir (str_int year)) (str_int location_id)
           in case run_tasks e use_cache year_cache_dir (completion s3_files) (w, 0, 0) of
                (rs, s) \<Rightarrow> (collect rs, s))"

section \<open>Multi-station fusion\<close>

text \<open>
  The fusers work row by row. A row is the association list from column names to cells;
  a column a row does not have reads as the missing value, which is what
  \<^verbatim>\<open>pd.concat\<close> and \<^verbatim>\<open>pd.DataFrame(list_of_dicts)\<close> fill in.
\<close>

type_synonym row = "(string \<times> cell) list"

definition rows_of :: "frame \<Rightarrow> row list" where
  "rows_of df = map (\<lambda>i. map (\<lambda>cx. (fst cx, snd cx ! i)) df) [0..<nrows df]"

definition cell_of :: "row \<Rightarrow> string \<Rightarrow> cell" where
  "cell_of r c = (case map_of r c of Some x \<Rightarrow> x | None \<Rightarrow> NaN)"

text \<open>The distinct elements of a list, in the order of their first occurrence.\<close>

definition uniq :: "'a list \<Rightarrow> 'a list" where
  "uniq xs = rev (remdups (rev xs))"

text \<open>
  A row under construction is a Python dictionary: assigning to a key replaces the value
  of a key that is there and appends a new key. \<^verbatim>\<open>pd.DataFrame(weighted_data)\<close> makes
  a frame of the rows, with the keys of the rows as columns.
\<close>

definition dict_set :: "string \<Rightarrow> cell \<Rightarrow> row \<Rightarrow> row" where
  "dict_set k v r = AList.update k v r"

definition frame_of_rows :: "row list \<Rightarrow> frame" where
  "frame_of_rows rows =
     map (\<lambda>c. (c, map (\<lambda>r. cell_of r c) rows)) (uniq (concat (map (map fst) rows)))"

text \<open>
  The rows of all stations, each with its station and its weight (the columns
  \<^verbatim>\<open>_station_id\<close> and \<^verbatim>\<open>_weight\<close>), and the columns of the concatenated frame.
\<close>

type_synonym tagged_row = "string \<times> real \<times> row"

definition combine :: "(string \<Rightarrow> real) \<Rightarrow> (string \<times> frame) list \<Rightarrow> tagged_row list" where
  "combine weight stations =
     concat (map (\<lambda>sf. map (\<lambda>r. (fst sf, weight (fst sf), r)) (rows_of (snd sf))) stations)"

definition combined_columns :: "(string \<times> frame) list \<Rightarrow> string list" where
  "combined_columns stations = uniq (concat (map (\<lambda>sf. map fst (snd sf)) stations))"

text \<open>
  \<^verbatim>\<open>combined.groupby("date")\<close>: the keys are the valid dates, in ascending order; a
  row without a valid date is in no group.
\<close>

definition date_of :: "tagged_row \<Rightarrow> cell" where
  "date_of tr = cell_of (snd (snd tr)) ''date''"

definition group_keys :: "tagged_row list \<Rightarrow> real list" where
  "group_keys combined =
     sort (remdups (List.map_filter (\<lambda>tr. case date_of tr of Num t \<Rightarrow> Some t | _ \<Rightarrow> None) combined))"

definition group_of :: "tagged_row list \<Rightarrow> real \<Rightarrow> tagged_row list" where
  "group_of combined t = filter (\<lambda>tr. date_of tr = Num t) combined"

text \<open>
  The rows of a group with a valid value in a column, as pairs of weight and value, and
  \<^verbatim>\<open>np.average(values, weights=weights)\<close>.
\<close>

definition contributions :: "tagged_row list \<Rightarrow> string \<Rightarrow> (real \<times> real) list" where
  "contributions grp col =
     map (\<lambda>tr. (fst (snd tr), num_of (cell_of (snd (snd tr)) col)))
       (filter (\<lambda>tr. notna (cell_of (snd (snd tr)) col)) grp)"

definition np_average :: "(real \<times> real) list \<Rightarrow> real" where
  "np_average wvs = sum_list (map (\<lambda>wv. snd wv * fst wv) wvs) / sum_list (map fst wvs)"

subsection \<open>The weather fuser\<close>

definition CORE_COLS :: "string list" where
  "CORE_COLS =
     [''temp_avg_c'', ''temp_max_c'', ''temp_min_c'', ''dewpoint_c'', ''precip_mm'',
      ''wind_speed_kmh'', ''visibility_km'', ''station_pressure_hpa'']"

text \<open>An entry of \<^verbatim>\<open>stations_info\<close>: the station id and, when the key is there, the distance.\<close>

record noaa_info =
  info_station_id :: string
  info_distance_km :: "real option"

text \<open>
  \<^verbatim>\<open>distance_map\<close> (line 221): a later entry for the same station replaces an earlier
  one; a missing distance is 1. The weight of line 228.
\<close>

definition noaa_distance_map :: "noaa_info list \<Rightarrow> string \<rightharpoonup> real" where
  "noaa_distance_map stations_info =
     map_of (rev (map (\<lambda>s. (info_station_id s,
                            (case info_distance_km s of None \<Rightarrow> 1 | Some d \<Rightarrow> d)))
                   stations_info))"

definition noaa_weight :: "noaa_info list \<Rightarrow> string \<Rightarrow> real" where
  "noaa_weight stations_info sid =
     1 / max (case noaa_distance_map stations_info sid of None \<Rightarrow> 1 | Some d \<Rightarrow> d) (1 / 10)"

text \<open>
  The body of the inner loop of lines 254-269 for one column, on the row and the count
  of valid columns.
\<close>

definition noaa_fuse_col :: "bool \<Rightarrow> tagged_row list \<Rightarrow> string \<Rightarrow> row \<times> nat \<Rightarrow> row \<times> nat" where
  "noaa_fuse_col quality_control grp col acc =
     (case acc of (row, valid_col_count) \<Rightarrow>
        let valid = contributions grp col;
            valid_count = length valid
        in if valid_count > 0
           then (let row = dict_set col (Num (np_average valid)) row;
                     row = (if quality_control
                            then dict_set (col @ ''_source_count'') (Num (real valid_count)) row
                            else row)
                 in (row, valid_col_count + 1))
           else (let row = dict_set col NaN row;
                     row = (if quality_control
                            then dict_set (col @ ''_source_count'') (Num 0) row
                            else row)
                 in (row, valid_col_count)))"

text \<open>
  Lines 271-276: the position is taken from the first row of the group with a valid
  latitude. Reading a column that the concatenated frame does not have raises
  \<^verbatim>\<open>KeyError\<close>.
\<close>

definition noaa_position :: "string list \<Rightarrow> tagged_row list \<Rightarrow> row \<Rightarrow> error + row" where
  "noaa_position cols grp row =
     (if ''lat'' \<notin> set cols then Inl KeyError
      else case filter (\<lambda>tr. notna (cell_of (snd (snd tr)) ''lat'')) grp of
             [] \<Rightarrow> Inr row
           | first # _ \<Rightarrow>
               if ''lon'' \<notin> set cols \<or> ''elev_m'' \<notin> set cols then Inl KeyError
               else Inr (dict_set ''elev_m'' (cell_of (snd (snd first)) ''elev_m'')
                        (dict_set ''lon'' (cell_of (snd (snd first)) ''lon'')
                        (dict_set ''lat'' (cell_of (snd (snd first)) ''lat'') row))))"

text \<open>The body of the loop over the groups (lines 250-284): the row of one date.\<close>

definition noaa_fuse_row ::
  "bool \<Rightarrow> string list \<Rightarrow> string list \<Rightarrow> tagged_row list \<Rightarrow> real \<Rightarrow> error + row" where
  "noaa_fuse_row quality_control cols numeric_cols combined t =
     (let grp = group_of combined t;
          total_cols = length numeric_cols
      in case fold (noaa_fuse_col quality_control grp) numeric_cols ([(''date'', Num t)], 0) of
           (row, valid_col_count) \<Rightarrow>
             (case noaa_position cols grp row of
                Inl e \<Rightarrow> Inl e
              | Inr row \<Rightarrow>
                  let row = dict_set ''station_count''
                              (Num (real (length (remdups (map fst grp))))) row;
                      row = dict_set ''data_source'' (Txt ''weighted_average'') row;
                      row = (if quality_control
                             then dict_set ''data_quality_score''
                                    (Num (if total_cols > 0
                                          then real valid_col_count / real total_cols else 0))
                                    row
                             else row)
                  in Inr row))"

text \<open>The rows of the loop, up to the first exception.\<close>

fun all_rows :: "(real \<Rightarrow> error + row) \<Rightarrow> real list \<Rightarrow> error + row list" where
  "all_rows f [] = Inr []"
| "all_rows f (t # ts) =
     (case f t of
        Inl e \<Rightarrow> Inl e
      | Inr r \<Rightarrow> (case all_rows f ts of Inl e \<Rightarrow> Inl e | Inr rs \<Rightarrow> Inr (r # rs)))"

text \<open>
  \<^verbatim>\<open>pd.to_datetime(combined["date"])\<close> of line 232, with the default
  \<^verbatim>\<open>errors="raise"\<close>: a text that is no date raises \<^verbatim>\<open>ValueError\<close>.
\<close>

definition convert_date :: "parsers \<Rightarrow> tagged_row \<Rightarrow> error + tagged_row" where
  "convert_date P tr =
     (case tr of (sid, w, r) \<Rightarrow>
        (case cell_of r ''date'' of
           Txt s \<Rightarrow> (case parse_utc P s of
                       None \<Rightarrow> Inl ValueError
                     | Some t \<Rightarrow> Inr (sid, w, dict_set ''date'' (Num (real_of_int t)) r))
         | Num v \<Rightarrow> Inr (sid, w, dict_set ''date'' (Num v) r)
         | _ \<Rightarrow> Inr (sid, w, dict_set ''date'' NaN r)))"

fun convert_dates :: "parsers \<Rightarrow> tagged_row list \<Rightarrow> error + tagged_row list" where
  "convert_dates P [] = Inr []"
| "convert_dates P (tr # trs) =
     (case convert_date P tr of
        Inl e \<Rightarrow> Inl e
      | Inr x \<Rightarrow> (case convert_dates P trs of Inl e \<Rightarrow> Inl e | Inr xs \<Rightarrow> Inr (x # xs)))"


text \<open>
  The single-station branch of lines 200-218: a copy of the station's frame with the
  count columns of the core columns it has, and the three summary columns.
\<close>

definition const_col :: "frame \<Rightarrow> cell \<Rightarrow> column" where
  "const_col df x = replicate (nrows df) x"

definition noaa_single_station :: "frame \<Rightarrow> frame" where
  "noaa_single_station df0 =
     (let df = fold (\<lambda>col df. if has_col df col
                                then set_col (col @ ''_source_count'') (const_col df0 (Num 1)) df
                                else df)
                    CORE_COLS df0;
          df = set_col ''station_count'' (const_col df0 (Num 1)) df;
          df = set_col ''data_source'' (const_col df0 (Txt ''single_station'')) df;
          df = set_col ''data_quality_score'' (const_col df0 (Num 1)) df
      in df)"

text \<open>
  \<^verbatim>\<open>NOAADataProcessor.merge_multi_station_data\<close> (noaa_processor.py, lines 179-289).
  \<^verbatim>\<open>station_dataframes\<close> is the list of the dictionary's items, in its order. The groups
  come in ascending order of the dates, so the final \<^verbatim>\<open>sort_values("date")\<close> moves no
  row; on a frame without rows, which has no columns, it raises \<^verbatim>\<open>KeyError\<close>.
\<close>

definition noaa_merge_multi_station_data ::
  "parsers \<Rightarrow> (string \<times> frame) list \<Rightarrow> noaa_info list \<Rightarrow> bool \<Rightarrow> error + frame" where
  "noaa_merge_multi_station_data P station_dataframes stations_info quality_control =
     (if station_dataframes = [] then Inr []
      else if length station_dataframes = 1
      then Inr (noaa_single_station (snd (hd station_dataframes)))
      else
        let cols = combined_columns station_dataframes in
        if ''date'' \<notin> set cols then Inl KeyError
        else
          case convert_dates P (combine (noaa_weight stations_info) station_dataframes) of
            Inl e \<Rightarrow> Inl e
          | Inr combined \<Rightarrow>
              let numeric_cols = filter (\<lambda>c. c \<in> set cols) CORE_COLS in
              case all_rows (noaa_fuse_row quality_control cols numeric_cols combined)
                     (group_keys combined) of
                Inl e \<Rightarrow> Inl e
              | Inr weighted_data \<Rightarrow>
                  if weighted_data = [] then Inl KeyError
                  else Inr (frame_of_rows weighted_data))"

subsection \<open>The air-quality fuser\<close>

text \<open>
  An entry of \<^verbatim>\<open>stations_info\<close>: the distance in metres when the key is there, the
  sensor ids of \<^verbatim>\<open>supported_pollutants\<close> when the key is there (those that are not
  empty, as text), and the location id (\<^verbatim>\<open>location_id\<close> or \<^verbatim>\<open>id\<close>) when there is one.
\<close>

record openaq_info =
  info_distance_m :: "real option"
  info_sensor_ids :: "string list option"
  info_location_id :: "string option"

definition openaq_distance_map :: "openaq_info list \<Rightarrow> string \<rightharpoonup> real" where
  "openaq_distance_map stations_info =
     map_of (rev (concat (map (\<lambda>s.
        let distance_m = (case info_distance_m s of None \<Rightarrow> 1000 | Some d \<Rightarrow> d)
        in case info_sensor_ids s of
             Some ids \<Rightarrow> map (\<lambda>sensor_id. (sensor_id, distance_m)) ids
           | None \<Rightarrow> (case info_location_id s of
                        Some loc_id \<Rightarrow> [(loc_id, distance_m)]
                      | None \<Rightarrow> []))
        stations_info)))"

definition openaq_weight :: "openaq_info list \<Rightarrow> string \<Rightarrow> real" where
  "openaq_weight stations_info sensor_id =
     1 / max (case openaq_distance_map stations_info sensor_id of None \<Rightarrow> 1000 | Some d \<Rightarrow> d) 100"

text \<open>
  The columns to fuse (lines 257-263): the columns of the concatenated frame that are not
  bookkeeping columns and hold floats.
\<close>

definition openaq_numeric_cols :: "string list \<Rightarrow> tagged_row list \<Rightarrow> string list" where
  "openaq_numeric_cols cols combined =
     filter (\<lambda>c. c \<notin> set [''date'', ''station_count'', ''data_quality_score'', ''_weight'',
                            ''_sensor_id''] \<and>
                 \<not> (endswith c ''_unit'' \<or> endswith c ''_source_count'' \<or>
                    endswith c ''_is_outlier'' \<or> endswith c ''_value'') \<and>
                 list_all (\<lambda>tr. is_float (cell_of (snd (snd tr)) c)) combined)
       cols"

definition openaq_fuse_col :: "tagged_row list \<Rightarrow> string \<Rightarrow> row \<times> nat \<Rightarrow> row \<times> nat" where
  "openaq_fuse_col grp col acc =
     (case acc of (row, valid_col_count) \<Rightarrow>
        let valid = contributions grp col;
            valid_count = length valid
        in if valid_count > 0
           then (dict_set (col @ ''_source_count'') (Num (real valid_count))
                   (dict_set col (Num (np_average valid)) row),
                 valid_col_count + 1)
           else (dict_set col NaN row, valid_col_count))"

definition openaq_fuse_row :: "string list \<Rightarrow> tagged_row list \<Rightarrow> real \<Rightarrow> row" where
  "openaq_fuse_row numeric_cols combined t =
     (let grp = group_of combined t
      in case fold (openaq_fuse_col grp) numeric_cols ([(''date'', Num t)], 0) of
           (row, valid_col_count) \<Rightarrow>
             let row = dict_set ''station_count''
                         (Num (real (length (remdups (map fst grp))))) row;
                 row = dict_set ''data_source'' (Txt ''weighted_average'') row;
                 row = dict_set ''data_quality_score''
                         (Num (if numeric_cols \<noteq> []
                               then real valid_col_count / real (length numeric_cols) else 0))
                         row
             in row)"

text \<open>
  \<^verbatim>\<open>OpenAQDataProcessor.merge_multi_station_data\<close> (openaq_processor.py, lines
  207-293). The single-station branch returns the station's own frame with two columns
  assigned to it.
\<close>

definition openaq_merge_multi_station_data ::
  "(string \<times> frame) list \<Rightarrow> openaq_info list \<Rightarrow> error + frame" where
  "openaq_merge_multi_station_data station_dataframes stations_info =
     (if station_dataframes = [] then Inr []
      else if length station_dataframes = 1
      then (let df = snd (hd station_dataframes);
                df1 = set_col ''data_source'' (const_col df (Txt ''single_station'')) df;
                df2 = set_col ''data_quality_score'' (const_col df (Num 1)) df1
            in Inr df2)
      else
        let cols = combined_columns station_dataframes;
            combined = combine (openaq_weight stations_info) station_dataframes;
            numeric_cols = openaq_numeric_cols cols combined
        in if ''date'' \<notin> set cols then Inl KeyError
           else
             let weighted_data = map (openaq_fuse_row numeric_cols combined) (group_keys combined)
             in if weighted_data = [] then Inl KeyError
                else Inr (frame_of_rows weighted_data))"

subsection \<open>Outcomes of one bulk download task\<close>

fun is_path :: "exn + string option \<Rightarrow> bool" where
  "is_path (Inr (Some p)) = True"
| "is_path _ = False"

fun is_raise :: "exn + string option \<Rightarrow> bool" where
  "is_raise (Inl x) = True"
| "is_raise _ = False"


section \<open>Properties of the outlier detectors\<close>


lemma length_null_where [simp]: "length (null_where bs xs) = length xs"
  by (induction bs xs rule: null_where.induct) auto

lemma nth_null_where:
  "i < length xs \<Longrightarrow> length bs = length xs \<Longrightarrow>
   null_where bs xs ! i = (if bs ! i then NaN else xs ! i)"
proof (induction bs xs arbitrary: i rule: null_where.induct)
  case (1 b bs x xs)
  then show ?case by (cases i) auto
qed auto

lemma null_where_all_na:
  "\<forall>x \<in> set xs. \<not> notna x \<Longrightarrow> null_where (map (out_of_range lo hi) xs) xs = xs"
proof (induction xs)
  case (Cons x xs)
  then show ?case by (cases x) auto
qed simp

lemma null_where_none:
  "filter id (map f xs) = [] \<Longrightarrow> null_where (map f xs) xs = xs"
  by (induction xs) (auto split: if_splits)

lemma flag_name_neq [simp]: "flag_name c \<noteq> c" "c \<noteq> flag_name c"
  by (auto simp: flag_name_def)

lemma flag_name_inj [simp]: "flag_name a = flag_name b \<longleftrightarrow> a = b"
  by (simp add: flag_name_def)

lemma map_of_set_col: "map_of (set_col c xs df) k = (if k = c then Some xs else map_of df k)"
  by (simp add: set_col_def update_conv')

lemma wf_set_col: "wf_frame n df \<Longrightarrow> length xs = n \<Longrightarrow> wf_frame n (set_col c xs df)"
proof -
  assume wf: "wf_frame n df" and len: "length xs = n"
  have "set (AList.update c xs df) \<subseteq> insert (c, xs) (set df)"
    by (induction df) auto
  with wf len show ?thesis
    unfolding wf_frame_def set_col_def by (auto simp: distinct_update)
qed

lemma wf_frame_col: "wf_frame n df \<Longrightarrow> map_of df c = Some xs \<Longrightarrow> length xs = n"
  unfolding wf_frame_def by (auto dest!: map_of_SomeD)

lemma detect_col_value:
  "map_of (detect_col c lo hi df) c =
     (case map_of df c of None \<Rightarrow> None
      | Some xs \<Rightarrow> Some (null_where (map (out_of_range lo hi) xs) xs))"
  by (auto simp: detect_col_def has_col_def get_col_def Let_def map_of_set_col
        null_where_none null_where_all_na filter_empty_conv split: option.splits)

lemma detect_col_flag:
  "map_of (detect_col c lo hi df) (flag_name c) =
     (case map_of df c of None \<Rightarrow> map_of df (flag_name c)
      | Some xs \<Rightarrow> if \<exists>x \<in> set xs. notna x
                   then Some (map Flag (map (out_of_range lo hi) xs))
                   else map_of df (flag_name c))"
  by (auto simp: detect_col_def has_col_def get_col_def Let_def map_of_set_col
        filter_empty_conv split: option.splits)

lemma detect_col_other:
  "k \<noteq> c \<Longrightarrow> k \<noteq> flag_name c \<Longrightarrow> map_of (detect_col c lo hi df) k = map_of df k"
  by (auto simp: detect_col_def has_col_def get_col_def Let_def map_of_set_col)

lemma wf_detect_col: "wf_frame n df \<Longrightarrow> wf_frame n (detect_col c lo hi df)"
  by (auto simp: detect_col_def has_col_def get_col_def Let_def map_of_set_col
        intro!: wf_set_col dest: wf_frame_col split: option.splits)



lemma detect_all_other:
  "\<forall>t \<in> set ths. fst t \<noteq> k \<and> flag_name (fst t) \<noteq> k \<Longrightarrow>
   map_of (detect_all ths df) k = map_of df k"
  by (induction ths arbitrary: df) (auto simp: detect_col_other)

lemma wf_detect_all: "wf_frame n df \<Longrightarrow> wf_frame n (detect_all ths df)"
  by (induction ths arbitrary: df) (auto simp: wf_detect_col)

lemma detect_col_value_cong:
  "map_of df' c = map_of df c \<Longrightarrow>
   map_of (detect_col c lo hi df') c = map_of (detect_col c lo hi df) c"
  by (simp add: detect_col_value)

lemma detect_col_flag_cong:
  "map_of df' c = map_of df c \<Longrightarrow> map_of df' (flag_name c) = map_of df (flag_name c) \<Longrightarrow>
   map_of (detect_col c lo hi df') (flag_name c) = map_of (detect_col c lo hi df) (flag_name c)"
  by (simp add: detect_col_flag split: option.splits)

lemma detect_all_col:
  assumes "distinct (map fst ths)"
    and "\<forall>a \<in> set ths. \<forall>b \<in> set ths. flag_name (fst a) \<noteq> fst b"
    and "(c, lo, hi) \<in> set ths"
  shows "map_of (detect_all ths df) c = map_of (detect_col c lo hi df) c \<and>
         map_of (detect_all ths df) (flag_name c) = map_of (detect_col c lo hi df) (flag_name c)"
  using assms
proof (induction ths arbitrary: df)
  case Nil
  then show ?case by simp
next
  case (Cons t ths)
  obtain c' lo' hi' where t: "t = (c', lo', hi')" by (cases t) auto
  show ?case
  proof (cases "t = (c, lo, hi)")
    case True
    have a: "\<forall>u \<in> set ths. fst u \<noteq> c \<and> flag_name (fst u) \<noteq> c"
      using Cons.prems True by force
    have b: "\<forall>u \<in> set ths. fst u \<noteq> flag_name c \<and> flag_name (fst u) \<noteq> flag_name c"
      using Cons.prems True by force
    show ?thesis
      using True detect_all_other [OF a] detect_all_other [OF b] by simp
  next
    case False
    then have mem: "(c, lo, hi) \<in> set ths" using Cons.prems by auto
    have ne: "c \<noteq> c'" using Cons.prems mem t by force
    have ne2: "c \<noteq> flag_name c'" "flag_name c \<noteq> c'" using Cons.prems mem t by force+
    have ih: "map_of (detect_all ths (detect_col c' lo' hi' df)) c =
                map_of (detect_col c lo hi (detect_col c' lo' hi' df)) c \<and>
              map_of (detect_all ths (detect_col c' lo' hi' df)) (flag_name c) =
                map_of (detect_col c lo hi (detect_col c' lo' hi' df)) (flag_name c)"
      using Cons.IH [of "detect_col c' lo' hi' df"] Cons.prems mem by simp
    have s1: "map_of (detect_col c' lo' hi' df) c = map_of df c"
      using ne ne2 by (simp add: detect_col_other)
    have s2: "map_of (detect_col c' lo' hi' df) (flag_name c) = map_of df (flag_name c)"
      using ne ne2 by (simp add: detect_col_other)
    show ?thesis
      using ih detect_col_value_cong [OF s1] detect_col_flag_cong [OF s1 s2] t by simp
  qed
qed

lemma noaa_table_distinct: "distinct (map fst NOAA_OUTLIER_THRESHOLDS)"
  by (simp add: NOAA_OUTLIER_THRESHOLDS_def)

lemma noaa_table_flags:
  "\<forall>a \<in> set NOAA_OUTLIER_THRESHOLDS. \<forall>b \<in> set NOAA_OUTLIER_THRESHOLDS.
     flag_name (fst a) \<noteq> fst b"
  by (simp add: NOAA_OUTLIER_THRESHOLDS_def flag_name_def)

lemma noaa_detect_col:
  "(c, lo, hi) \<in> set NOAA_OUTLIER_THRESHOLDS \<Longrightarrow>
   map_of (noaa_detect_outliers df) c = map_of (detect_col c lo hi df) c \<and>
   map_of (noaa_detect_outliers df) (flag_name c) = map_of (detect_col c lo hi df) (flag_name c)"
  unfolding noaa_detect_outliers_def
  by (rule detect_all_col [OF noaa_table_distinct noaa_table_flags])

lemma openaq_value:
  "openaq_range p = (lo, hi) \<Longrightarrow>
   map_of (openaq_detect_outliers df p) p =
     (case map_of df p of None \<Rightarrow> None
      | Some xs \<Rightarrow> Some (null_where (map (out_of_range lo hi) xs) xs))"
  by (auto simp: openaq_detect_outliers_def has_col_def get_col_def Let_def map_of_set_col
        null_where_none null_where_all_na filter_empty_conv split: option.splits)

lemma openaq_flag:
  "openaq_range p = (lo, hi) \<Longrightarrow>
   map_of (openaq_detect_outliers df p) (flag_name p) =
     (case map_of df p of None \<Rightarrow> map_of df (flag_name p)
      | Some xs \<Rightarrow> if \<exists>x \<in> set xs. notna x
                   then Some (map Flag (map (out_of_range lo hi) xs))
                   else map_of df (flag_name p))"
  by (auto simp: openaq_detect_outliers_def has_col_def get_col_def Let_def map_of_set_col
        filter_empty_conv split: option.splits)

lemma openaq_other:
  "k \<noteq> p \<Longrightarrow> k \<noteq> flag_name p \<Longrightarrow> map_of (openaq_detect_outliers df p) k = map_of df k"
  by (auto simp: openaq_detect_outliers_def has_col_def get_col_def Let_def map_of_set_col
        split: prod.splits)

lemma wf_openaq: "wf_frame n df \<Longrightarrow> wf_frame n (openaq_detect_outliers df p)"
  by (auto simp: openaq_detect_outliers_def has_col_def get_col_def Let_def map_of_set_col
        intro!: wf_set_col dest: wf_frame_col split: option.splits prod.splits)



lemma post_from_maps:
  assumes v: "map_of res c = Some (null_where (map (out_of_range lo hi) xs) xs)"
    and f: "map_of res (flag_name c) =
              (if \<exists>x \<in> set xs. notna x
               then Some (map Flag (map (out_of_range lo hi) xs)) else old)"
    and i: "i < length xs"
  shows "(\<forall>v. xs ! i = Num v \<and> (v < lo \<or> hi < v) \<longrightarrow>
            cell_at res c i = Some NaN \<and> cell_at res (flag_name c) i = Some (Flag True)) \<and>
         (xs ! i = NaN \<longrightarrow>
            cell_at res c i = Some NaN \<and>
            (if \<exists>y \<in> set xs. notna y
             then cell_at res (flag_name c) i = Some (Flag False)
             else map_of res (flag_name c) = old)) \<and>
         (\<forall>v. xs ! i = Num v \<and> lo \<le> v \<and> v \<le> hi \<longrightarrow>
            cell_at res c i = Some (Num v) \<and> cell_at res (flag_name c) i = Some (Flag False))"
proof -
  have mem: "xs ! i \<in> set xs" using i by simp
  have ex: "\<And>v. xs ! i = Num v \<Longrightarrow> \<exists>x \<in> set xs. notna x"
    using mem by (metis notna.simps(2))
  have val: "cell_at res c i = Some (if out_of_range lo hi (xs ! i) then NaN else xs ! i)"
    using v i by (simp add: cell_at_def nth_null_where)
  have flg: "\<exists>x \<in> set xs. notna x \<Longrightarrow>
      cell_at res (flag_name c) i = Some (Flag (out_of_range lo hi (xs ! i)))"
    using f i by (simp add: cell_at_def)
  have a: "\<forall>v. xs ! i = Num v \<and> (v < lo \<or> hi < v) \<longrightarrow>
            cell_at res c i = Some NaN \<and> cell_at res (flag_name c) i = Some (Flag True)"
    using val flg ex by auto
  have b: "xs ! i = NaN \<longrightarrow>
            cell_at res c i = Some NaN \<and>
            (if \<exists>y \<in> set xs. notna y
             then cell_at res (flag_name c) i = Some (Flag False)
             else map_of res (flag_name c) = old)"
  proof
    assume n: "xs ! i = NaN"
    have "cell_at res c i = Some NaN" using val n by simp
    moreover have "\<exists>y \<in> set xs. notna y \<Longrightarrow> cell_at res (flag_name c) i = Some (Flag False)"
      using flg n by simp
    moreover have "\<not> (\<exists>y \<in> set xs. notna y) \<Longrightarrow> map_of res (flag_name c) = old"
      using f by simp
    ultimately show "cell_at res c i = Some NaN \<and>
            (if \<exists>y \<in> set xs. notna y
             then cell_at res (flag_name c) i = Some (Flag False)
             else map_of res (flag_name c) = old)"
      by (simp split: if_splits)
  qed
  have c: "\<forall>v. xs ! i = Num v \<and> lo \<le> v \<and> v \<le> hi \<longrightarrow>
            cell_at res c i = Some (Num v) \<and> cell_at res (flag_name c) i = Some (Flag False)"
    using val flg ex by auto
  show ?thesis using a b c by (intro conjI)
qed

text \<open>
  Claim C5, as amended. Both detectors keep the number of rows (every column of the
  result has the \<open>n\<close> cells of the input). In a tracked float column, a number outside
  the field's range becomes the missing value with its \<open>is_outlier\<close> flag true, and a
  number inside the range is kept with its flag false. A missing value stays missing; its
  flag is false when the field has at least one valid value, and when the field has none
  the detector writes no flag column for it: the flag column is then whatever the input
  had under that name, which for the output of the normalizer is nothing.
\<close>

theorem outlier_detector_nulls_and_flags:
  assumes wf: "wf_frame n df" and i: "i < n"
    and col: "map_of df c = Some xs"
    and flt: "\<forall>x \<in> set xs. is_float x"
    and tracked: "(c, lo, hi) \<in> set NOAA_OUTLIER_THRESHOLDS \<and> res = noaa_detect_outliers df \<or>
                  openaq_range c = (lo, hi) \<and> res = openaq_detect_outliers df c"
  shows "wf_frame n res \<and>
         (\<forall>v. xs ! i = Num v \<and> (v < lo \<or> hi < v) \<longrightarrow>
            cell_at res c i = Some NaN \<and> cell_at res (flag_name c) i = Some (Flag True)) \<and>
         (xs ! i = NaN \<longrightarrow>
            cell_at res c i = Some NaN \<and>
            (if \<exists>y \<in> set xs. notna y
             then cell_at res (flag_name c) i = Some (Flag False)
             else map_of res (flag_name c) = map_of df (flag_name c))) \<and>
         (\<forall>v. xs ! i = Num v \<and> lo \<le> v \<and> v \<le> hi \<longrightarrow>
            cell_at res c i = Some (Num v) \<and> cell_at res (flag_name c) i = Some (Flag False))"
proof -
  have len: "i < length xs" using wf col i by (simp add: wf_frame_col)
  have w: "wf_frame n res"
    using tracked wf by (auto simp: noaa_detect_outliers_def wf_detect_all wf_openaq)
  have v: "map_of res c = Some (null_where (map (out_of_range lo hi) xs) xs)"
    using tracked
  proof
    assume "(c, lo, hi) \<in> set NOAA_OUTLIER_THRESHOLDS \<and> res = noaa_detect_outliers df"
    then show ?thesis
      using noaa_detect_col [of c lo hi df] col by (simp add: detect_col_value)
  next
    assume "openaq_range c = (lo, hi) \<and> res = openaq_detect_outliers df c"
    then show ?thesis using col by (simp add: openaq_value)
  qed
  have f: "map_of res (flag_name c) =
             (if \<exists>x \<in> set xs. notna x
              then Some (map Flag (map (out_of_range lo hi) xs))
              else map_of df (flag_name c))"
    using tracked
  proof
    assume "(c, lo, hi) \<in> set NOAA_OUTLIER_THRESHOLDS \<and> res = noaa_detect_outliers df"
    then show ?thesis
      using noaa_detect_col [of c lo hi df] col by (simp add: detect_col_flag)
  next
    assume "openaq_range c = (lo, hi) \<and> res = openaq_detect_outliers df c"
    then show ?thesis using col by (simp add: openaq_flag)
  qed
  show ?thesis
    by (rule conjI [OF w post_from_maps [OF v f len]])
qed

theorem outlier_detector_nulls_and_flags_witness:
  "wf_frame 3 [(''temp_avg_c'', [Num 70, NaN, Num 20])] \<and> (1::nat) < 3 \<and>
   map_of [(''temp_avg_c'', [Num 70, NaN, Num 20])] ''temp_avg_c'' = Some [Num 70, NaN, Num 20] \<and>
   list_all is_float [Num 70, NaN, Num 20] \<and>
   (''temp_avg_c'', -60, 60) \<in> set NOAA_OUTLIER_THRESHOLDS \<and>
   cell_at (noaa_detect_outliers [(''temp_avg_c'', [Num 70, NaN, Num 20])]) ''temp_avg_c'' 1
     = Some NaN \<and>
   cell_at (noaa_detect_outliers [(''temp_avg_c'', [Num 70, NaN, Num 20])])
     (flag_name ''temp_avg_c'') 1 = Some (Flag False)"
proof -
  let ?df = "[(''temp_avg_c'', [Num 70, NaN, Num 20])]"
  let ?xs = "[Num 70, NaN, Num 20]"
  have wf: "wf_frame 3 ?df" by (simp add: wf_frame_def)
  have i: "(1::nat) < 3" by simp
  have col: "map_of ?df ''temp_avg_c'' = Some ?xs" by simp
  have flt: "\<forall>x \<in> set ?xs. is_float x" by simp
  have mem: "(''temp_avg_c'', -60, 60) \<in> set NOAA_OUTLIER_THRESHOLDS"
    by (simp add: NOAA_OUTLIER_THRESHOLDS_def)
  have tracked: "(''temp_avg_c'', -60, 60) \<in> set NOAA_OUTLIER_THRESHOLDS \<and>
        noaa_detect_outliers ?df = noaa_detect_outliers ?df \<or>
      openaq_range ''temp_avg_c'' = (-60, 60) \<and>
        noaa_detect_outliers ?df = openaq_detect_outliers ?df ''temp_avg_c''"
    using mem by simp
  note th = outlier_detector_nulls_and_flags [OF wf i col flt tracked]
  have na: "?xs ! 1 = NaN" by simp
  have ex: "\<exists>y \<in> set ?xs. notna y" by simp
  have mid: "?xs ! 1 = NaN \<longrightarrow>
      cell_at (noaa_detect_outliers ?df) ''temp_avg_c'' 1 = Some NaN \<and>
      (if \<exists>y \<in> set ?xs. notna y
       then cell_at (noaa_detect_outliers ?df) (flag_name ''temp_avg_c'') 1 = Some (Flag False)
       else map_of (noaa_detect_outliers ?df) (flag_name ''temp_avg_c'') =
            map_of ?df (flag_name ''temp_avg_c''))"
    using th by (elim conjE)
  have res: "cell_at (noaa_detect_outliers ?df) ''temp_avg_c'' 1 = Some NaN \<and>
      cell_at (noaa_detect_outliers ?df) (flag_name ''temp_avg_c'') 1 = Some (Flag False)"
    using mid [rule_format, OF na] ex by (simp only: if_True)
  have fl: "list_all is_float ?xs" by simp
  show ?thesis
    using wf i col fl mem res by (intro conjI) (elim conjE, assumption)+
qed

text \<open>
  Claim C5 as stated fails for a missing value of a field that has no valid value at all:
  it stays missing, but its flag is not false, for the detector writes no flag column.
\<close>

theorem all_null_value_has_no_flag:
  "cell_at (noaa_detect_outliers [(''temp_avg_c'', [NaN, NaN])]) ''temp_avg_c'' 0 = Some NaN \<and>
   cell_at (noaa_detect_outliers [(''temp_avg_c'', [NaN, NaN])]) (flag_name ''temp_avg_c'') 0 = None \<and>
   cell_at (openaq_detect_outliers [(''pm25'', [NaN, NaN])] ''pm25'') ''pm25'' 0 = Some NaN \<and>
   cell_at (openaq_detect_outliers [(''pm25'', [NaN, NaN])] ''pm25'') (flag_name ''pm25'') 0 = None"
proof -
  have a: "noaa_detect_outliers [(''temp_avg_c'', [NaN, NaN])] = [(''temp_avg_c'', [NaN, NaN])]"
    by (simp add: noaa_detect_outliers_def NOAA_OUTLIER_THRESHOLDS_def detect_col_def
          has_col_def get_col_def)
  have b: "openaq_detect_outliers [(''pm25'', [NaN, NaN])] ''pm25'' = [(''pm25'', [NaN, NaN])]"
    by (simp add: openaq_detect_outliers_def has_col_def get_col_def split: prod.splits)
  show ?thesis
    unfolding a b by (simp add: cell_at_def flag_name_def)
qed

text \<open>
  Claim C10. A tracked field whose values are all missing (also a field of a frame with
  no rows) is skipped by both detectors: its values are unchanged and no flag column is
  written for it, so the frame has a flag column for the field after the detector exactly
  when it had one before. A flag column is therefore new in the output only for a field
  with at least one valid value.
\<close>

theorem all_null_field_gets_no_flag_column:
  assumes xs: "map_of df c = Some xs" and nulls: "\<forall>x \<in> set xs. \<not> notna x"
  shows "((c, lo, hi) \<in> set NOAA_OUTLIER_THRESHOLDS \<longrightarrow>
            map_of (noaa_detect_outliers df) (flag_name c) = map_of df (flag_name c) \<and>
            map_of (noaa_detect_outliers df) c = Some xs) \<and>
         map_of (openaq_detect_outliers df c) (flag_name c) = map_of df (flag_name c) \<and>
         map_of (openaq_detect_outliers df c) c = Some xs"
proof -
  obtain l h where r: "openaq_range c = (l, h)" by (cases "openaq_range c") auto
  have a: "map_of (detect_col c lo hi df) (flag_name c) = map_of df (flag_name c)"
    using xs nulls by (simp add: detect_col_flag)
  have b: "map_of (detect_col c lo hi df) c = Some xs"
    using xs nulls by (simp add: detect_col_value null_where_all_na)
  have c: "map_of (openaq_detect_outliers df c) (flag_name c) = map_of df (flag_name c)"
    using xs nulls by (simp add: openaq_flag [OF r])
  have d: "map_of (openaq_detect_outliers df c) c = Some xs"
    using xs nulls by (simp add: openaq_value [OF r] null_where_all_na)
  have e: "(c, lo, hi) \<in> set NOAA_OUTLIER_THRESHOLDS \<longrightarrow>
            map_of (noaa_detect_outliers df) (flag_name c) = map_of df (flag_name c) \<and>
            map_of (noaa_detect_outliers df) c = Some xs"
    using a b noaa_detect_col [of c lo hi df] by simp
  show ?thesis
    using e c d by (intro conjI)
qed

theorem all_null_field_gets_no_flag_column_witness:
  "map_of [(''pm25'', [NaN, NaN])] ''pm25'' = Some [NaN, NaN] \<and>
   list_all (\<lambda>x. \<not> notna x) [NaN, NaN] \<and>
   openaq_detect_outliers [(''pm25'', [NaN, NaN])] ''pm25'' = [(''pm25'', [NaN, NaN])] \<and>
   map_of (openaq_detect_outliers [(''pm25'', [NaN, NaN])] ''pm25'') (flag_name ''pm25'') = None"
proof -
  have xs: "map_of [(''pm25'', [NaN, NaN])] ''pm25'' = Some [NaN, NaN]" by simp
  have nulls: "\<forall>x \<in> set [NaN, NaN]. \<not> notna x" by simp
  have e: "openaq_detect_outliers [(''pm25'', [NaN, NaN])] ''pm25'' = [(''pm25'', [NaN, NaN])]"
    by (simp add: openaq_detect_outliers_def has_col_def get_col_def split: prod.splits)
  show ?thesis
    using all_null_field_gets_no_flag_column [OF xs nulls, of 0 0] xs nulls e
    by (simp add: flag_name_def)
qed

section \<open>Properties of the station matcher\<close>

lemma sort_contract_sort_key: "sort_contract (sort_key snd)"
  by (simp add: sort_contract_def)

lemma distance_station_of [simp]: "distance_km (station_of rd) = snd rd"
  by (cases rd) (simp add: station_of_def)

lemma sorted_head_rows: "sorted (map f xs) \<Longrightarrow> sorted (map f (head_rows n xs))"
proof -
  assume "sorted (map f xs)"
  then have "sorted (take k (map f xs))" for k by (rule sorted_wrt_take)
  then show ?thesis by (simp add: head_rows_def take_map)
qed

lemma set_head_rows: "set (head_rows n xs) \<subseteq> set xs"
  by (auto simp: head_rows_def dest: in_set_takeD)

lemma length_head_rows: "0 \<le> n \<Longrightarrow> int (length (head_rows n xs)) \<le> n"
  by (simp add: head_rows_def)

lemma find_nearest_stations_within_limit:
  assumes srt: "sort_contract srt" and m: "m \<noteq> 0"
    and run: "find_nearest_stations srt fl df lat0 lon0 n (Some m) = Inr stations"
  shows "sorted (map distance_km stations) \<and>
         (\<forall>s \<in> set stations. distance_km s < m) \<and>
         (0 \<le> n \<longrightarrow> int (length stations) \<le> n)"
proof -
  obtain ds where ds: "all_distances fl lat0 lon0 df = Inr ds"
    using run by (cases "all_distances fl lat0 lon0 df") (simp_all add: find_nearest_stations_def)
  let ?rows = "zip df ds"
  let ?valid = "filter (\<lambda>rd. below (snd rd) (Some m)) ?rows"
  have res: "stations = map station_of (head_rows n (srt ?valid))"
    using run m ds by (simp add: find_nearest_stations_def distance_limit_def Let_def)
  have comp: "map distance_km (map station_of xs) = map snd xs" for xs
    by (simp add: comp_def)
  have "sorted (map snd (srt ?valid))" using srt by (simp add: sort_contract_def)
  then have a: "sorted (map snd (head_rows n (srt ?valid)))" by (rule sorted_head_rows)
  have "mset (srt ?valid) = mset ?valid" using srt by (simp add: sort_contract_def)
  then have "set (srt ?valid) = set ?valid" by (rule mset_eq_setD)
  then have "set (head_rows n (srt ?valid)) \<subseteq> set ?valid"
    using set_head_rows [of n "srt ?valid"] by simp
  moreover have "\<forall>rd \<in> set ?valid. snd rd < m" by simp
  ultimately have b: "\<forall>rd \<in> set (head_rows n (srt ?valid)). snd rd < m"
    by blast
  have c: "0 \<le> n \<longrightarrow> int (length (head_rows n (srt ?valid))) \<le> n"
    by (simp add: length_head_rows)
  have a': "sorted (map distance_km (map station_of (head_rows n (srt ?valid))))"
    using a by (simp only: comp)
  have b': "\<forall>s \<in> set (map station_of (head_rows n (srt ?valid))). distance_km s < m"
  proof
    fix s assume "s \<in> set (map station_of (head_rows n (srt ?valid)))"
    then obtain rd where "rd \<in> set (head_rows n (srt ?valid))" "s = station_of rd"
      by (auto simp only: set_map)
    with b show "distance_km s < m" by (simp only: distance_station_of)
  qed
  have c': "0 \<le> n \<longrightarrow> int (length (map station_of (head_rows n (srt ?valid)))) \<le> n"
    using c by (simp only: length_map)
  show ?thesis
    unfolding res using a' b' c' by (intro conjI)
qed

lemma haversine_half_turn: "fl 1 = 1 \<Longrightarrow> haversine_distance fl 0 0 0 180 = Inr (6371 * pi)"
proof -
  assume fl: "fl 1 = 1"
  have r: "radians 0 = 0" "radians 180 = pi" by (simp_all add: radians_def)
  have "atan2 1 0 = pi / 2" by (simp add: atan2_def)
  then show ?thesis
    by (simp add: haversine_distance_def Let_def r fl)
qed

lemma sort_contract_single: "sort_contract srt \<Longrightarrow> srt [x] = [x]"
proof -
  assume "sort_contract srt"
  then have "mset (srt [x]) = mset [x]" by (simp only: sort_contract_def)
  then show ?thesis by simp
qed

lemma sort_contract_empty: "sort_contract srt \<Longrightarrow> srt [] = []"
proof -
  assume "sort_contract srt"
  then have "mset (srt []) = mset []" by (simp only: sort_contract_def)
  then show ?thesis by simp
qed

lemma find_nearest_stations_nothing_qualifies:
  assumes "sort_contract srt"
    and "all_distances fl lat0 lon0 df = Inr ds"
    and "\<forall>d \<in> set ds. \<not> below d (distance_limit max_distance_km)"
  shows "find_nearest_stations srt fl df lat0 lon0 n max_distance_km = Inr []"
proof -
  have "filter (\<lambda>rd. below (snd rd) (distance_limit max_distance_km)) (zip df ds) = []"
    using assms(3) by (auto simp: filter_empty_conv dest: set_zip_rightD)
  then show ?thesis
    using sort_contract_empty [OF assms(1)] assms(2)
    by (simp add: find_nearest_stations_def Let_def head_rows_def)
qed

text \<open>
  Claim C4. A limit of zero is read as no limit: with \<^verbatim>\<open>max_distance_km = 0\<close> the
  matcher returns a station half the globe away (6371 \<open>\<pi>\<close> km), whose distance is not
  below the limit. At this input \<open>a\<close> is exactly 1, also in the floats, which is what the
  hypothesis on \<open>fl\<close> says. For a limit other than zero the returned stations are as the
  claim says (\<open>find_nearest_stations_within_limit\<close>,
  \<open>find_nearest_stations_nothing_qualifies\<close>) whenever the call returns.
\<close>

theorem zero_limit_returns_distant_station:
  assumes "sort_contract srt" and "fl 1 = 1"
  shows "(\<exists>stations.
            find_nearest_stations srt fl
              [\<lparr>USAF = ''999999'', WBAN = ''1'', STATION_NAME = ''FAR'', LAT = 0, LON = 180\<rparr>]
              0 0 3 (Some 0) = Inr stations \<and>
            map distance_km stations = [6371 * pi]) \<and>
         \<not> (6371 * pi < (0::real))"
proof -
  have "\<not> (6371 * pi < (0::real))" by (simp add: not_less)
  then show ?thesis
    using sort_contract_single [OF assms(1)] haversine_half_turn [of fl, OF assms(2)]
    by (simp add: find_nearest_stations_def distance_limit_def Let_def head_rows_def)
qed

theorem zero_limit_returns_distant_station_witness:
  "sort_contract (sort_key snd) \<and> id (1::real) = 1 \<and>
   (\<exists>stations.
      find_nearest_stations (sort_key snd) id
        [\<lparr>USAF = ''999999'', WBAN = ''1'', STATION_NAME = ''FAR'', LAT = 0, LON = 180\<rparr>]
        0 0 3 (Some 0) = Inr stations \<and>
      map distance_km stations = [6371 * pi])"
proof -
  have fl: "id (1::real) = 1" by simp
  note th = zero_limit_returns_distant_station [of "sort_key snd" id, OF sort_contract_sort_key fl]
  show ?thesis
    using th sort_contract_sort_key fl by (intro conjI) (elim conjE, assumption)+
qed

section \<open>Properties of the interpolation\<close>

lemma np_interp_between:
  assumes "\<forall>p \<in> set ps. fst p < x" and "x0 < x" and "x < x1"
  shows "np_interp x (ps @ (x0, y0) # (x1, y1) # qs) = (y1 - y0) / (x1 - x0) * (x - x0) + y0"
  using assms(1)
proof (induction ps)
  case Nil
  then show ?case using assms(2,3) by simp
next
  case (Cons p ps)
  obtain a b where p: "p = (a, b)" by (cases p) auto
  have a: "a < x" using Cons.prems p by simp
  have ih: "np_interp x (ps @ (x0, y0) # (x1, y1) # qs) = (y1 - y0) / (x1 - x0) * (x - x0) + y0"
    using Cons by simp
  show ?case
  proof (cases ps)
    case Nil
    then show ?thesis using a p ih assms(2) by simp
  next
    case (Cons q qs')
    obtain c d where q: "q = (c, d)" by (cases q) auto
    have "c < x" using Cons.prems Cons q \<open>\<forall>p\<in>set (p # ps). fst p < x\<close> by simp
    then show ?thesis using a p q ih Cons by simp
  qed
qed

lemma valid_points_append: "valid_points (xs @ ys) = valid_points xs @ valid_points ys"
  by (simp add: valid_points_def List.map_filter_def)

lemma valid_points_missing: "\<forall>p \<in> set gap. snd p = None \<Longrightarrow> valid_points gap = []"
  by (auto simp: valid_points_def List.map_filter_def filter_empty_conv)

lemma valid_points_Cons_Some: "valid_points ((d, Some v) # r) = (real_of_int d, v) # valid_points r"
  by (simp add: valid_points_def List.map_filter_def)

lemma fst_valid_points: "p \<in> set (valid_points xs) \<Longrightarrow> \<exists>q \<in> set xs. fst p = real_of_int (fst q)"
  by (force simp: valid_points_def List.map_filter_def split: option.splits)

lemma first_valid_index_le:
  "first_valid_index (pre @ (d, Some v) # r) \<le> length pre"
  unfolding first_valid_index_def
  by (induction pre) auto




lemma interpolate_1d_gap:
  assumes s: "s = pre @ (d0, Some u) # gap @ (d1, Some w) # post"
    and gap: "\<forall>p \<in> set gap. snd p = None"
    and srt: "sorted_wrt (<) (map fst s)"
    and j: "j < length gap"
  shows "interpolate_1d limit s ! (length pre + 1 + j) =
         (if j < limit
          then Some ((w - u) / (real_of_int d1 - real_of_int d0) *
                       (real_of_int (fst (gap ! j)) - real_of_int d0) + u)
          else None)"
proof -
  let ?i = "length pre + 1 + j"
  let ?ys = "map snd s"
  let ?inv = "map (\<lambda>y. y = None) ?ys"
  have len: "?i < length s" using s j by simp
  have lpre: "length pre < length s" using s by simp
  have at_gap: "s ! (length pre + 1 + t) = gap ! t" if "t < length gap" for t
    using that s by (simp add: nth_append)
  have at_d0: "s ! length pre = (d0, Some u)" using s by (simp add: nth_append)
  have gap_none: "snd (gap ! t) = None" if "t < length gap" for t
    using gap that by simp
  have inv_gap: "?inv ! (length pre + 1 + t)" if "t < length gap" for t
  proof -
    have "length pre + 1 + t < length s" using that s by simp
    then have "?inv ! (length pre + 1 + t) = (snd (s ! (length pre + 1 + t)) = None)"
      by (simp only: nth_map length_map)
    then show ?thesis using at_gap [OF that] gap_none [OF that] by simp
  qed
  have inv_d0: "\<not> ?inv ! length pre"
  proof -
    have "?inv ! length pre = (snd (s ! length pre) = None)"
      using lpre by (simp only: nth_map length_map)
    then show ?thesis using at_d0 by simp
  qed
  have yi: "?ys ! ?i = None"
    using len at_gap [OF j] gap_none [OF j] by (simp only: nth_map)
  have not_all_inv: "\<not> list_all id ?inv"
  proof
    assume "list_all id ?inv"
    then have "\<forall>n < length ?inv. ?inv ! n" by (simp only: list_all_length id_apply)
    then have "?inv ! length pre" using lpre by (simp only: length_map)
    then show False using inv_d0 by simp
  qed
  have not_all_valid: "\<not> list_all (\<lambda>b. \<not> b) ?inv"
  proof
    assume "list_all (\<lambda>b. \<not> b) ?inv"
    then have "\<forall>n < length ?inv. \<not> ?inv ! n" by (simp only: list_all_length)
    then have "\<not> ?inv ! ?i" using len by (simp only: length_map not_False_eq_True)
    then show False using inv_gap [OF j] by simp
  qed
  have fv: "\<not> ?i < first_valid_index s"
    using first_valid_index_le [of pre d0 u "gap @ (d1, Some w) # post"] s by simp
  have bl: "beyond_limit limit ?inv ?i \<longleftrightarrow> \<not> j < limit"
  proof (cases "j < limit")
    case True
    have "\<not> beyond_limit limit ?inv ?i"
    proof
      assume b: "beyond_limit limit ?inv ?i"
      then have le: "limit \<le> ?i"
        and all: "list_all id (take (limit + 1) (drop (?i - limit) ?inv))"
        by (simp_all only: beyond_limit_def)
      let ?m = "limit - 1 - j"
      have m: "?i - limit + ?m = length pre" using True le by simp
      have m1: "?m < limit + 1" by simp
      have m2: "?i - limit \<le> length ?inv" using len by simp
      have m3: "?m < length (take (limit + 1) (drop (?i - limit) ?inv))"
        using True le len by simp
      have "take (limit + 1) (drop (?i - limit) ?inv) ! ?m"
        using all m3 by (simp only: list_all_length id_apply)
      then have "drop (?i - limit) ?inv ! ?m" using m1 by (simp only: nth_take)
      then have "?inv ! (?i - limit + ?m)" using m2 by (simp only: nth_drop)
      then show False using m inv_d0 by simp
    qed
    then show ?thesis using True by simp
  next
    case False
    then have le: "limit \<le> ?i" by simp
    have "list_all id (take (limit + 1) (drop (?i - limit) ?inv))"
      unfolding list_all_length
    proof (intro allI impI)
      fix m assume m: "m < length (take (limit + 1) (drop (?i - limit) ?inv))"
      then have m1: "m < limit + 1" by simp
      have m2: "?i - limit \<le> length ?inv" using len by simp
      have eq: "?i - limit + m = length pre + 1 + (j - limit + m)" using False by simp
      have bound: "j - limit + m < length gap" using m1 j False by simp
      have e1: "take (limit + 1) (drop (?i - limit) ?inv) ! m = ?inv ! (?i - limit + m)"
        using m1 m2 by (simp only: nth_take nth_drop)
      from inv_gap [OF bound] have "?inv ! (?i - limit + m)" by (simp only: eq)
      then show "id (take (limit + 1) (drop (?i - limit) ?inv) ! m)"
        by (simp only: e1 id_apply)
    qed
    then show ?thesis using False le len by (simp add: beyond_limit_def)
  qed
  have vp: "valid_points s =
      valid_points pre @ (real_of_int d0, u) # (real_of_int d1, w) # valid_points post"
    using gap by (simp add: s valid_points_append valid_points_Cons_Some valid_points_missing)
  have mem: "gap ! j \<in> set gap" using j by simp
  have o1: "d0 < fst (gap ! j)" and o2: "fst (gap ! j) < d1"
    using srt mem unfolding s by (auto simp: sorted_wrt_append)
  have o3: "\<forall>q \<in> set pre. fst q < d0"
    using srt unfolding s by (auto simp: sorted_wrt_append)
  have o4: "\<forall>p \<in> set (valid_points pre). fst p < real_of_int (fst (gap ! j))"
  proof
    fix p assume "p \<in> set (valid_points pre)"
    then obtain q where "q \<in> set pre" "fst p = real_of_int (fst q)"
      using fst_valid_points by blast
    then show "fst p < real_of_int (fst (gap ! j))" using o3 o1 by force
  qed
  have np: "np_interp (real_of_int (fst (gap ! j))) (valid_points s) =
      (w - u) / (real_of_int d1 - real_of_int d0) *
        (real_of_int (fst (gap ! j)) - real_of_int d0) + u"
    unfolding vp by (rule np_interp_between [OF o4]) (use o1 o2 in simp_all)
  define f where "f = (\<lambda>i. case ?ys ! i of Some v \<Rightarrow> Some v
       | None \<Rightarrow> if i < first_valid_index s \<or> beyond_limit limit ?inv i then None
                 else Some (np_interp (real_of_int (fst (s ! i))) (valid_points s)))"
  have "interpolate_1d limit s = map f [0..<length s]"
    using not_all_inv not_all_valid unfolding f_def by (simp add: interpolate_1d_def Let_def)
  then have "interpolate_1d limit s ! ?i = f ?i"
    using len by simp
  also have "f ?i = (if j < limit
          then Some ((w - u) / (real_of_int d1 - real_of_int d0) *
                       (real_of_int (fst (gap ! j)) - real_of_int d0) + u)
          else None)"
    unfolding f_def using yi fv bl np at_gap [OF j] by simp
  finally show ?thesis .
qed


lemma length_interpolate_1d [simp]: "length (interpolate_1d limit s) = length s"
  by (simp add: interpolate_1d_def Let_def)

lemma interpolate_1d_keeps_valid:
  assumes "t < length s" and "snd (s ! t) = Some v"
  shows "interpolate_1d limit s ! t = Some v"
proof -
  let ?ys = "map snd s"
  let ?inv = "map (\<lambda>y. y = None) ?ys"
  define f where "f = (\<lambda>i. case ?ys ! i of Some v \<Rightarrow> Some v
       | None \<Rightarrow> if i < first_valid_index s \<or> beyond_limit limit ?inv i then None
                 else Some (np_interp (real_of_int (fst (s ! i))) (valid_points s)))"
  have a: "?ys ! t = Some v" using assms by simp
  have b: "map f [0..<length s] ! t = Some v"
    using assms(1) a unfolding f_def by simp
  have "interpolate_1d limit s = ?ys \<or> interpolate_1d limit s = map f [0..<length s]"
    unfolding f_def by (simp add: interpolate_1d_def Let_def)
  then show ?thesis using a b by auto
qed

lemma filter_count_less:
  assumes "length xs = length ys"
    and "\<forall>t < length xs. P (xs ! t) \<longrightarrow> Q (ys ! t)"
    and "k < length xs" and "\<not> P (xs ! k)" and "Q (ys ! k)"
  shows "length (filter P xs) < length (filter Q ys)"
  using assms
proof (induction xs ys arbitrary: k rule: list_induct2)
  case Nil
  then show ?case by simp
next
  case (Cons x xs y ys)
  have step: "\<forall>t < length xs. P (xs ! t) \<longrightarrow> Q (ys ! t)"
    using Cons.prems(1) by auto
  have le: "length (filter P xs) \<le> length (filter Q ys)"
    using Cons.hyps step
  proof (induction xs ys rule: list_induct2)
    case Nil
    then show ?case by simp
  next
    case (Cons a as b bs)
    have "\<forall>t < length as. P (as ! t) \<longrightarrow> Q (bs ! t)" using Cons.prems by auto
    moreover have "P a \<longrightarrow> Q b" using Cons.prems by auto
    ultimately show ?case using Cons.IH by auto
  qed
  have hd: "P x \<longrightarrow> Q y" using Cons.prems(1) by auto
  show ?case
  proof (cases k)
    case 0
    then show ?thesis using Cons.prems le by auto
  next
    case (Suc k')
    then have "length (filter P xs) < length (filter Q ys)"
      using Cons.IH [of k'] step Cons.prems by auto
    then show ?thesis using hd by auto
  qed
qed


text \<open>
  Claim C1, as amended. In a series with increasing dates and a limit of at least 1, take
  a run of missing days between two valid values. Its day number \<open>j\<close> (counted from 0) is
  filled exactly when \<open>j < limit\<close>, with the value on the straight line through the two
  valid neighbours, and the flag column marks exactly the filled days. So a run of at most
  \<open>limit\<close> days is filled entirely, and of a longer run the first \<open>limit\<close> days are filled
  and the rest stays missing.
\<close>

theorem interpolation_fills_first_limit_days_of_a_gap:
  assumes s: "s = pre @ (d0, Some u) # gap @ (d1, Some w) # post"
    and gap: "\<forall>p \<in> set gap. snd p = None"
    and srt: "sorted_wrt (<) (map fst s)"
    and limit: "1 \<le> limit"
    and j: "j < length gap"
  shows "\<exists>new flags.
           interpolate_field limit s = Inr (new, Some flags) \<and>
           new ! (length pre + 1 + j) =
             (if int j < limit
              then Some ((w - u) / (real_of_int d1 - real_of_int d0) *
                           (real_of_int (fst (gap ! j)) - real_of_int d0) + u)
              else None) \<and>
           flags ! (length pre + 1 + j) = (int j < limit)"
proof -
  let ?i = "length pre + 1 + j"
  let ?col = "map snd s"
  let ?new = "interpolate_1d (nat limit) s"
  let ?mask = "map (\<lambda>y. y = None) ?col"
  let ?flags = "map2 (\<lambda>m y. m \<and> y \<noteq> None) ?mask ?new"
  have len: "?i < length s" using s j by simp
  have j0: "0 < length gap" using j by (cases gap) simp_all
  have col_i: "?col ! (length pre + 1 + t) = None" if "t < length gap" for t
  proof -
    have "s ! (length pre + 1 + t) = gap ! t" using that s by (simp add: nth_append)
    moreover have "length pre + 1 + t < length s" using that s by simp
    ultimately show ?thesis using gap that by simp
  qed
  have new_i: "?new ! (length pre + 1 + t) =
      (if t < nat limit
       then Some ((w - u) / (real_of_int d1 - real_of_int d0) *
                    (real_of_int (fst (gap ! t)) - real_of_int d0) + u)
       else None)" if "t < length gap" for t
    by (rule interpolate_1d_gap [OF s gap srt that])
  have new_0: "?new ! (length pre + 1) \<noteq> None"
    using new_i [OF j0] limit by simp
  have col_0: "?col ! (length pre + 1) = None"
    using col_i [OF j0] by simp
  have keep: "\<forall>t < length ?new. ?new ! t = None \<longrightarrow> ?col ! t = None"
  proof (intro allI impI)
    fix t assume t: "t < length ?new" and n: "?new ! t = None"
    show "?col ! t = None"
    proof (cases "snd (s ! t)")
      case None
      then show ?thesis using t by simp
    next
      case (Some v)
      then have "?new ! t = Some v" using t by (simp add: interpolate_1d_keeps_valid)
      then show ?thesis using n by simp
    qed
  qed
  have k: "length pre + 1 < length ?new" using s j0 by simp
  have less: "length (filter (\<lambda>y. y = None) ?new) < length (filter (\<lambda>y. y = None) ?col)"
    by (rule filter_count_less [OF _ keep k new_0 col_0]) simp
  then have mb: "length (filter (\<lambda>y. y = None) ?col) \<noteq> 0" by arith
  have nl: "\<not> limit < 1" using limit by simp
  have pos: "0 < length (filter (\<lambda>y. y = None) ?col) - length (filter (\<lambda>y. y = None) ?new)"
    using less by arith
  have res: "interpolate_field limit s = Inr (?new, Some ?flags)"
    by (simp only: interpolate_field_def Let_def mb nl pos if_False if_True)
  have ji: "(j < nat limit) = (int j < limit)" using limit by auto
  have v: "?new ! ?i =
        (if int j < limit
         then Some ((w - u) / (real_of_int d1 - real_of_int d0) *
                      (real_of_int (fst (gap ! j)) - real_of_int d0) + u)
         else None)"
    using new_i [OF j] ji by simp
  have "?flags ! ?i = (?mask ! ?i \<and> ?new ! ?i \<noteq> None)"
    using len by simp
  also have "\<dots> = (int j < limit)"
    using col_i [OF j] len v by simp
  finally have f: "?flags ! ?i = (int j < limit)" .
  show ?thesis using res v f by blast
qed

text \<open>
  Claim C1 as stated fails: with limit 3, a run of four missing days is not left entirely
  missing. Its first three days are filled and flagged, only the fourth stays missing.
\<close>

theorem interpolation_partly_fills_long_gap:
  "interpolate_field 3
     [(0, Some 1), (1, None), (2, None), (3, None), (4, None), (5, Some 6)] =
   Inr ([Some 1, Some 2, Some 3, Some 4, None, Some 6],
        Some [False, True, True, True, False, False])"
  by (simp add: interpolate_field_def interpolate_1d_def Let_def first_valid_index_def
       beyond_limit_def valid_points_def List.map_filter_simps upt_rec)

theorem interpolation_fills_first_limit_days_of_a_gap_witness:
  "[(0::int, Some (1::real)), (1, None), (2, None), (3, Some 4)] =
     [] @ (0, Some 1) # [(1, None), (2, None)] @ (3, Some 4) # [] \<and>
   list_all (\<lambda>p. snd p = None) [(1::int, None::real option), (2, None)] \<and>
   sorted_wrt (<) (map fst [(0::int, Some (1::real)), (1, None), (2, None), (3, Some 4)]) \<and>
   (1::int) \<le> 3 \<and> (1::nat) < length [(1::int, None::real option), (2, None)] \<and>
   (\<exists>new flags.
      interpolate_field 3 [(0, Some 1), (1, None), (2, None), (3, Some 4)] =
        Inr (new, Some flags) \<and>
      new ! 2 = Some 3 \<and> flags ! 2 = True)"
proof -
  have s: "[(0::int, Some (1::real)), (1, None), (2, None), (3, Some 4)] =
     [] @ (0, Some 1) # [(1, None), (2, None)] @ (3, Some 4) # []" by simp
  have gap: "\<forall>p \<in> set [(1::int, None::real option), (2, None)]. snd p = None" by simp
  have srt: "sorted_wrt (<) (map fst [(0::int, Some (1::real)), (1, None), (2, None), (3, Some 4)])"
    by simp
  have limit: "(1::int) \<le> 3" by simp
  have j: "(1::nat) < length [(1::int, None::real option), (2, None)]" by simp
  have idx: "length ([]::(int \<times> real option) list) + 1 + 1 = 2" by simp
  have val: "(if int 1 < 3
      then Some ((4 - 1) / (real_of_int 3 - real_of_int 0) *
             (real_of_int (fst ([(1, None), (2, None)] ! 1)) - real_of_int 0) + 1)
      else None) = Some (3::real)" by simp
  have fl: "(int 1 < 3) = True" by simp
  note th = interpolation_fills_first_limit_days_of_a_gap [OF s gap srt limit j]
  have e: "\<exists>new flags.
      interpolate_field 3 [(0, Some 1), (1, None), (2, None), (3, Some 4)] =
        Inr (new, Some flags) \<and>
      new ! 2 = Some 3 \<and> flags ! 2 = True"
    by (rule th [unfolded idx val, unfolded fl])
  have g2: "list_all (\<lambda>p. snd p = None) [(1::int, None::real option), (2, None)]" by simp
  show ?thesis
    by (intro conjI) (rule s g2 srt limit j e)+
qed

section \<open>Properties of the point-HTTP client\<close>

lemma fetch_year_cases:
  "fetch_year e b w year sid p =
     (let url = year_url b year sid;
          w1 = w\<lparr>requested := requested w @ [url]\<rparr>
      in case net e url of
           TransportFailure \<Rightarrow> (Inr None, w1)
         | Response status content \<Rightarrow>
             if 400 \<le> status \<and> status < 600 then (Inr None, w1)
             else if \<not> disk_accepts e p then (Inr None, w1)
             else (Inr (Some p), w1\<lparr>files := (files w1)(p \<mapsto> content)\<rparr>))"
proof (cases "net e (year_url b year sid)")
  case (Response status content)
  then show ?thesis
    by (auto simp: fetch_year_def try_download_def Let_def)
next
  case TransportFailure
  then show ?thesis
    by (auto simp: fetch_year_def try_download_def Let_def)
qed

lemma download_year_cases:
  "\<not> (use_cache \<and> stat_raises e (cache_path c year sid dir)) \<Longrightarrow>
   download_year e b c w year sid dir use_cache =
     (if use_cache \<and> files w (cache_path c year sid dir) \<noteq> None
      then (Inr (Some (cache_path c year sid dir)), w)
      else fetch_year e b w year sid (cache_path c year sid dir))"
  by (auto simp: download_year_def path_exists_def Let_def)

text \<open>
  What holds of Claim C6 when the cache check itself does not fail: \<^verbatim>\<open>download_year\<close>
  returns a value; on a cache miss a transport failure and an HTTP error status both give
  \<open>None\<close>, and a good response on a disk that accepts the file is stored under the cache
  path before that path is returned; a returned path is the cache path, its file is on
  disk, and a later call that uses the cache returns the same path and leaves the world
  as it is, the log of requests included.
\<close>

lemma download_year_when_cache_check_succeeds:
  assumes run: "download_year e b c w year sid dir use_cache = (r, w')"
    and stat: "\<not> stat_raises e (cache_path c year sid dir)"
  shows "(\<exists>v. r = Inr v) \<and>
         (\<not> (use_cache \<and> files w (cache_path c year sid dir) \<noteq> None) \<longrightarrow>
            (case net e (year_url b year sid) of
               TransportFailure \<Rightarrow> r = Inr None
             | Response status content \<Rightarrow>
                 if 400 \<le> status \<and> status < 600 then r = Inr None
                 else if disk_accepts e (cache_path c year sid dir)
                 then r = Inr (Some (cache_path c year sid dir)) \<and>
                      files w' (cache_path c year sid dir) = Some content
                 else r = Inr None)) \<and>
         (\<forall>q. r = Inr (Some q) \<longrightarrow>
            q = cache_path c year sid dir \<and> files w' q \<noteq> None \<and>
            download_year e b c w' year sid dir True = (Inr (Some q), w'))"
proof -
  let ?p = "cache_path c year sid dir"
  let ?url = "year_url b year sid"
  let ?w1 = "w\<lparr>requested := requested w @ [?url]\<rparr>"
  have dy: "download_year e b c v year sid dir u =
     (if u \<and> files v ?p \<noteq> None then (Inr (Some ?p), v)
      else fetch_year e b v year sid ?p)" for u v
    using stat by (simp add: download_year_cases)
  show ?thesis
  proof (cases "use_cache \<and> files w ?p \<noteq> None")
    case True
    have "download_year e b c w year sid dir use_cache = (Inr (Some ?p), w)"
      using True by (simp add: dy)
    with run have rw: "r = Inr (Some ?p)" "w' = w" by simp_all
    have again: "download_year e b c w year sid dir True = (Inr (Some ?p), w)"
      using True by (simp add: dy)
    show ?thesis unfolding rw using True again by simp
  next
    case False
    have miss: "download_year e b c w year sid dir use_cache = fetch_year e b w year sid ?p"
      using False by (auto simp: dy)
    show ?thesis
    proof (cases "net e ?url")
      case TransportFailure
      have "download_year e b c w year sid dir use_cache = (Inr None, ?w1)"
        unfolding miss using TransportFailure by (simp add: fetch_year_cases Let_def)
      with run have "r = Inr None" by simp
      then show ?thesis using False TransportFailure by simp
    next
      case (Response status content)
      show ?thesis
      proof (cases "(400 \<le> status \<and> status < 600) \<or> \<not> disk_accepts e ?p")
        case True
        have "download_year e b c w year sid dir use_cache = (Inr None, ?w1)"
          unfolding miss using Response True by (auto simp: fetch_year_cases Let_def)
        with run have "r = Inr None" by simp
        then show ?thesis using False Response True by auto
      next
        case ok: False
        have "download_year e b c w year sid dir use_cache =
                (Inr (Some ?p), ?w1\<lparr>files := (files ?w1)(?p \<mapsto> content)\<rparr>)"
          unfolding miss using Response ok by (auto simp: fetch_year_cases Let_def)
        with run have rw: "r = Inr (Some ?p)"
          "w' = ?w1\<lparr>files := (files ?w1)(?p \<mapsto> content)\<rparr>" by simp_all
        have again: "download_year e b c w' year sid dir True = (Inr (Some ?p), w')"
          unfolding rw by (simp add: dy)
        have "files w' ?p = Some content" unfolding rw by simp
        then show ?thesis using rw(1) again False Response ok by auto
      qed
    qed
  qed
qed

text \<open>
  Claim C6 fails on the code: the cache check is not inside the \<^verbatim>\<open>try\<close>. For a station
  id of 300 characters the file name is longer than the 255 bytes a file system allows,
  \<^verbatim>\<open>Path.exists\<close> raises \<^verbatim>\<open>OSError\<close> (file name too long), and \<^verbatim>\<open>download_year\<close>
  raises it to its caller, with no request made.
\<close>

theorem download_year_cache_check_raises:
  "download_year
     \<lparr>net = (\<lambda>u. Response 200 ''data''), disk_accepts = (\<lambda>p. length p \<le> 255),
      stat_raises = (\<lambda>p. 255 < length p)\<rparr>
     ''https://noaa'' ''cache'' \<lparr>files = Map.empty, requested = []\<rparr>
     2023 (replicate 300 (CHR ''7'')) None True =
   (Inl OSError, \<lparr>files = Map.empty, requested = []\<rparr>)"
  by (simp add: download_year_def path_exists_def cache_path_def path_join_def Let_def)

section \<open>Properties of the source normalization\<close>

lemma has_col_set_col: "has_col (set_col c xs df) k \<longleftrightarrow> k = c \<or> has_col df k"
  by (simp add: has_col_def map_of_set_col)

text \<open>
  Every frame with a \<^verbatim>\<open>datetime\<close> column leaves the call with a \<^verbatim>\<open>date\<close> column: a
  raw batch, which has none, is modified.
\<close>

lemma process_s3_data_adds_date_to_input:
  assumes "has_col df ''datetime''"
  shows "has_col (snd (process_s3_data P df pollutant)) ''date''"
  using assms
  by (simp add: process_s3_data_def Let_def has_col_set_col)

text \<open>
  Claim C8 fails on the code for the air-quality normalizer: \<^verbatim>\<open>process_s3_data\<close>
  assigns to the frame it is given. A raw batch of one row with the columns
  \<^verbatim>\<open>datetime\<close> and \<^verbatim>\<open>value\<close> comes back with a third column \<^verbatim>\<open>date\<close>.
\<close>

theorem process_s3_data_modifies_its_input:
  "process_s3_data \<lparr>parse_utc = (\<lambda>s. Some 1672549200), parse_number = (\<lambda>s. None)\<rparr>
     [(''datetime'', [Txt ''2023-01-01T05:00:00Z'']), (''value'', [Num 5])] ''pm25'' =
   ([(''date'', [Num 1672531200]), (''pm25'', [Num 5]), (''pm25_unit'', [Txt ''ug/m3''])],
    [(''datetime'', [Txt ''2023-01-01T05:00:00Z'']), (''value'', [Num 5]),
     (''date'', [Num 1672531200])]) \<and>
   [(''datetime'', [Txt ''2023-01-01T05:00:00Z'']), (''value'', [Num 5]),
     (''date'', [Num 1672531200])] \<noteq>
   [(''datetime'', [Txt ''2023-01-01T05:00:00Z'']), (''value'', [Num 5])]"
proof -
  have fl: "\<lfloor>(1672549200::real) / 86400\<rfloor> = 19358"
    by (simp add: floor_eq_iff)
  show ?thesis
    by (simp add: process_s3_data_def has_col_def get_col_def set_col_def to_datetime_def
       normalize_day_def to_numeric_def dropna_def keep_rows_def frame_empty_def nrows_def
       aggregate_daily_def daily_mean_def TARGET_UNITS_def num_of_def Let_def fl)
qed

section \<open>Properties of the bulk-archive client\<close>


lemma download_single_file_counts:
  assumes "download_single_file e uc d (w, sc, fc) key = (r, (w', sc', fc'))"
  shows "sc' = sc + (if is_path r then 1 else 0) \<and>
         fc' = fc + (if r = Inr None then 1 else 0)"
  using assms
  by (auto simp: download_single_file_def Let_def split: if_splits option.splits)

lemma download_single_file_no_raise:
  assumes "download_single_file e uc d s key = (r, s')"
    and "uc \<longrightarrow> \<not> stat_fails e (path_join d (basename key))"
  shows "\<not> is_raise r"
  using assms
  by (cases s) (auto simp: download_single_file_def Let_def split: if_splits option.splits)

lemma run_tasks_counts:
  assumes "run_tasks e uc d keys (w, sc, fc) = (rs, (w', sc', fc'))"
  shows "length rs = length keys \<and>
         sc' = sc + length (filter is_path rs) \<and>
         fc' = fc + length (filter (\<lambda>r. r = Inr None) rs)"
  using assms
proof (induction keys arbitrary: w sc fc rs w' sc' fc')
  case Nil
  then show ?case by simp
next
  case (Cons key keys)
  obtain r w1 sc1 fc1 where one: "download_single_file e uc d (w, sc, fc) key = (r, (w1, sc1, fc1))"
    by (metis prod_cases3)
  obtain rs0 w2 sc2 fc2 where rest: "run_tasks e uc d keys (w1, sc1, fc1) = (rs0, (w2, sc2, fc2))"
    by (metis prod_cases3)
  have eq: "rs = r # rs0" "sc' = sc2" "fc' = fc2"
    using Cons.prems one rest by simp_all
  have c1: "sc1 = sc + (if is_path r then 1 else 0) \<and>
            fc1 = fc + (if r = Inr None then 1 else 0)"
    by (rule download_single_file_counts [OF one])
  have c2: "length rs0 = length keys \<and>
         sc2 = sc1 + length (filter is_path rs0) \<and>
         fc2 = fc1 + length (filter (\<lambda>r. r = Inr None) rs0)"
    by (rule Cons.IH [OF rest])
  show ?case
    unfolding eq using c1 c2 by simp
qed

lemma run_tasks_no_raise:
  assumes "run_tasks e uc d keys s = (rs, s')"
    and "uc \<longrightarrow> (\<forall>key \<in> set keys. \<not> stat_fails e (path_join d (basename key)))"
  shows "\<forall>r \<in> set rs. \<not> is_raise r"
  using assms
proof (induction keys arbitrary: s rs s')
  case Nil
  then show ?case by simp
next
  case (Cons key keys)
  obtain r s1 where one: "download_single_file e uc d s key = (r, s1)"
    by (cases "download_single_file e uc d s key") auto
  obtain rs0 s2 where rest: "run_tasks e uc d keys s1 = (rs0, s2)"
    by (cases "run_tasks e uc d keys s1") auto
  have eq: "rs = r # rs0" using Cons.prems(1) one rest by simp
  have a: "\<not> is_raise r"
    using download_single_file_no_raise [OF one] Cons.prems(2) by simp
  have b: "\<forall>r \<in> set rs0. \<not> is_raise r"
    using Cons.IH [OF rest] Cons.prems(2) by simp
  show ?case unfolding eq using a b by simp
qed

lemma collect_no_raise:
  "\<forall>r \<in> set rs. \<not> is_raise r \<Longrightarrow>
   \<exists>ps. collect rs = Inr ps \<and> length ps = length (filter is_path rs)"
proof (induction rs rule: collect.induct)
  case 1
  then show ?case by simp
next
  case (2 x rs)
  then show ?case by simp
next
  case (3 rs)
  then show ?case by simp
next
  case (4 p rs)
  then show ?case by auto
qed

lemma count_split:
  "\<forall>r \<in> set rs. \<not> is_raise r \<Longrightarrow>
   length (filter is_path rs) + length (filter (\<lambda>r. r = Inr None) rs) = length rs"
proof (induction rs)
  case Nil
  then show ?case by simp
next
  case (Cons r rs)
  then show ?case
    by (cases r rule: is_path.cases) auto
qed

text \<open>
  What holds of Claim C7 when no cache check fails: the call returns a list; with \<open>k\<close>
  failed downloads the list has the listed count minus \<open>k\<close> paths, \<^verbatim>\<open>failed_count\<close> is
  \<open>k\<close> and \<^verbatim>\<open>success_count\<close> is the length of the list; an empty listing gives the
  empty list.
\<close>

lemma download_year_data_counts:
  assumes perm: "\<forall>xs. mset (completion xs) = mset xs"
    and stat: "use_cache \<longrightarrow>
       (\<forall>key \<in> set (list_s3_files e location_id year None).
          \<not> stat_fails e
              (path_join (path_join (path_join city_cache_dir (str_int year)) (str_int location_id))
                 (basename key)))"
    and run: "download_year_data e completion w location_id year city_cache_dir use_cache =
                (r, (w', sc, fc))"
  shows "\<exists>paths. r = Inr paths \<and>
           length paths + fc = length (list_s3_files e location_id year None) \<and>
           sc = length paths \<and>
           (list_s3_files e location_id year None = [] \<longrightarrow> paths = [])"
proof (cases "list_s3_files e location_id year None = []")
  case True
  then have "r = Inr []" "sc = 0" "fc = 0"
    using run by (simp_all add: download_year_data_def)
  then show ?thesis using True by simp
next
  case False
  let ?files = "list_s3_files e location_id year None"
  let ?d = "path_join (path_join city_cache_dir (str_int year)) (str_int location_id)"
  obtain rs s where rt: "run_tasks e use_cache ?d (completion ?files) (w, 0, 0) = (rs, s)"
    by (cases "run_tasks e use_cache ?d (completion ?files) (w, 0, 0)") auto
  have res: "r = collect rs" "s = (w', sc, fc)"
    using run False rt by (simp_all add: download_year_data_def Let_def)
  have sets: "set (completion ?files) = set ?files"
    using perm by (metis mset_eq_setD)
  have len: "length (completion ?files) = length ?files"
    using perm by (metis mset_eq_length)
  have nr: "\<forall>r \<in> set rs. \<not> is_raise r"
    by (rule run_tasks_no_raise [OF rt]) (use stat sets in simp)
  have cnt: "length rs = length (completion ?files) \<and>
         sc = 0 + length (filter is_path rs) \<and>
         fc = 0 + length (filter (\<lambda>r. r = Inr None) rs)"
    by (rule run_tasks_counts [OF rt [unfolded res(2)]])
  obtain ps where ps: "collect rs = Inr ps" "length ps = length (filter is_path rs)"
    using collect_no_raise [OF nr] by blast
  have "length ps + fc = length ?files"
    using cnt ps(2) count_split [OF nr] len by simp
  then show ?thesis
    using res(1) ps cnt False by simp
qed


text \<open>
  Claim C7 fails on the code: the worker's cache check is not inside its \<^verbatim>\<open>try\<close>. When
  the cache directory may not be searched, \<^verbatim>\<open>Path.exists\<close> raises in the worker,
  \<^verbatim>\<open>future.result()\<close> raises it again in the loop, and \<^verbatim>\<open>download_year_data\<close> raises
  it to its caller instead of counting a failure.
\<close>

theorem download_year_data_cache_check_raises:
  "download_year_data
     \<lparr>list_objects = (\<lambda>p. Some [''records/csv.gz/locationid=1/year=2023/month=01/a.csv.gz'']),
      get_object = (\<lambda>k. Some ''data''), write_ok = (\<lambda>p. True), stat_fails = (\<lambda>p. True)\<rparr>
     id \<lparr>files = Map.empty, requested = []\<rparr> 1 2023 ''cache/Beijing'' True =
   (Inl OSError, (\<lparr>files = Map.empty, requested = []\<rparr>, 0, 0))"
  by (simp add: download_year_data_def list_s3_files_def endswith_def download_single_file_def
        Let_def)

section \<open>Properties of the fusers\<close>














lemma set_uniq [simp]: "set (uniq xs) = set xs"
  by (simp add: uniq_def)


















text \<open>A weighted mean does not change when all weights are multiplied by the same factor.\<close>

lemma np_average_scale:
  assumes "k \<noteq> 0"
  shows "np_average (map (\<lambda>wv. (k * fst wv, snd wv)) wvs) = np_average wvs"
proof -
  have a: "sum_list (map (\<lambda>wv. snd wv * fst wv) (map (\<lambda>wv. (k * fst wv, snd wv)) wvs)) =
           k * sum_list (map (\<lambda>wv. snd wv * fst wv) wvs)"
    by (induction wvs) (simp_all add: algebra_simps)
  have b: "sum_list (map fst (map (\<lambda>wv. (k * fst wv, snd wv)) wvs)) = k * sum_list (map fst wvs)"
    by (induction wvs) (simp_all add: algebra_simps)
  show ?thesis
    unfolding np_average_def a b using assms by simp
qed

lemma score_bounds:
  "0 \<le> real (length (filter Q ncols)) / real (length ncols) \<and>
   real (length (filter Q ncols)) / real (length ncols) \<le> 1"
proof -
  have "length (filter Q ncols) \<le> length ncols" by (rule length_filter_le)
  then show ?thesis by (cases "ncols = []") (simp_all add: divide_le_eq)
qed


lemmas fuse_eval =
  noaa_merge_multi_station_data_def openaq_merge_multi_station_data_def combined_columns_def
  uniq_def combine_def rows_of_def nrows_def noaa_weight_def noaa_distance_map_def
  openaq_weight_def openaq_distance_map_def openaq_numeric_cols_def endswith_def
  convert_date_def cell_of_def CORE_COLS_def group_keys_def date_of_def List.map_filter_simps
  noaa_fuse_row_def openaq_fuse_row_def group_of_def noaa_fuse_col_def openaq_fuse_col_def
  contributions_def np_average_def num_of_def dict_set_def noaa_position_def frame_of_rows_def
  noaa_single_station_def const_col_def has_col_def set_col_def Let_def upt_rec





text \<open>
  Claim C2 fails on the code for the air-quality fuser with one station: the frame it
  returns has the columns \<^verbatim>\<open>data_source\<close> and \<^verbatim>\<open>data_quality_score\<close> but no count
  column for the field. The weather fuser writes the count 1 on the same kind of input.
\<close>

theorem air_quality_single_station_has_no_source_count:
  "openaq_merge_multi_station_data
     [(''1'', [(''date'', [Num 1, Num 2]), (''pm25'', [NaN, Num 4])])] [] =
   Inr [(''date'', [Num 1, Num 2]), (''pm25'', [NaN, Num 4]),
        (''data_source'', [Txt ''single_station'', Txt ''single_station'']),
        (''data_quality_score'', [Num 1, Num 1])] \<and>
   cell_at
     [(''date'', [Num 1, Num 2]), (''pm25'', [NaN, Num 4]),
      (''data_source'', [Txt ''single_station'', Txt ''single_station'']),
      (''data_quality_score'', [Num 1, Num 1])]
     ''pm25_source_count'' 1 = None \<and>
   noaa_merge_multi_station_data \<lparr>parse_utc = (\<lambda>s. Some 0), parse_number = (\<lambda>s. None)\<rparr>
     [(''A'', [(''date'', [Num 1, Num 2]), (''temp_avg_c'', [NaN, Num 4])])] [] True =
   Inr [(''date'', [Num 1, Num 2]), (''temp_avg_c'', [NaN, Num 4]),
        (''temp_avg_c_source_count'', [Num 1, Num 1]),
        (''station_count'', [Num 1, Num 1]),
        (''data_source'', [Txt ''single_station'', Txt ''single_station'']),
        (''data_quality_score'', [Num 1, Num 1])]"
  by (simp add: fuse_eval cell_at_def)

end
